theory Spec2Isabelle
  imports Complex_Main "HOL-Library.AList"
begin


unbundle bit_operations_syntax

section \<open>JavaScript values, failures and results\<close>

text \<open>
  The library is TypeScript compiled to JavaScript (\<^verbatim>\<open>dist/index.cjs\<close>).  A JavaScript
  number is modelled as an exact rational or one of the three non-finite values; strings
  are byte strings (the UTF-8 form that \<^verbatim>\<open>Buffer.from(s, "utf8")\<close> and the hash see);
  an object is the association list of its own properties, in insertion order, and is an
  ordinary object: its prototype is \<^verbatim>\<open>Object.prototype\<close>.  A function or object that
  the runtime provides is \<open>JBuiltin\<close> with its name.
  A rejected promise or a \<^verbatim>\<open>throw\<close> is the left summand of the result.
\<close>

datatype number = Num rat | NaN | PosInfinity | NegInfinity

datatype jsvalue =
    JNull
  | JUndefined
  | JBoolean bool
  | JNumber number
  | JString string
  | JBigInt int
  | JDate number
  | JArray "jsvalue list"
  | JObject "(string \<times> jsvalue) list"
  | JBuiltin string

type_synonym object = "(string \<times> jsvalue) list"

text \<open>The properties of \<^verbatim>\<open>Object.prototype\<close>, which every ordinary object inherits:
  eleven functions and the accessor \<^verbatim>\<open>__proto__\<close>, which reads as the prototype itself.\<close>

definition ObjectPrototype :: object where
  "ObjectPrototype =
     [(''constructor'', JBuiltin ''Object''),
      (''__defineGetter__'', JBuiltin ''Object.prototype.__defineGetter__''),
      (''__defineSetter__'', JBuiltin ''Object.prototype.__defineSetter__''),
      (''hasOwnProperty'', JBuiltin ''Object.prototype.hasOwnProperty''),
      (''__lookupGetter__'', JBuiltin ''Object.prototype.__lookupGetter__''),
      (''__lookupSetter__'', JBuiltin ''Object.prototype.__lookupSetter__''),
      (''isPrototypeOf'', JBuiltin ''Object.prototype.isPrototypeOf''),
      (''propertyIsEnumerable'', JBuiltin ''Object.prototype.propertyIsEnumerable''),
      (''toString'', JBuiltin ''Object.prototype.toString''),
      (''valueOf'', JBuiltin ''Object.prototype.valueOf''),
      (''__proto__'', JBuiltin ''Object.prototype''),
      (''toLocaleString'', JBuiltin ''Object.prototype.toLocaleString'')]"

text \<open>\<^verbatim>\<open>key in obj\<close> and \<^verbatim>\<open>obj[key]\<close>: an own property first, then an inherited one; a
  property that is neither reads as \<^verbatim>\<open>undefined\<close>.  So \<^verbatim>\<open>"toString" in {}\<close> is true.\<close>

definition hasKey :: "string \<Rightarrow> object \<Rightarrow> bool" where
  "hasKey key obj = (map_of obj key \<noteq> None \<or> map_of ObjectPrototype key \<noteq> None)"

definition getProp :: "object \<Rightarrow> string \<Rightarrow> jsvalue" where
  "getProp obj key =
     (case map_of obj key of
        Some v \<Rightarrow> v
      | None \<Rightarrow> (case map_of ObjectPrototype key of None \<Rightarrow> JUndefined | Some v \<Rightarrow> v))"

text \<open>\<^verbatim>\<open>Object.fromEntries\<close>: a later entry with the same key overwrites the value and
  keeps the position of the first.  The list keeps insertion order for every key; that a
  JavaScript object enumerates its integer-like keys first is left out.\<close>

definition fromEntries :: "(string \<times> jsvalue) list \<Rightarrow> object" where
  "fromEntries es = foldl (\<lambda>obj (key, v). AList.update key v obj) [] es"

text \<open>\<^verbatim>\<open>src/error.ts\<close>: the error class of the library, and every other thrown value.\<close>

datatype errorCode = INVALID_TOKEN | INVALID_SORT | INVALID_LIMIT | UNEXPECTED_ERROR

datatype failure =
    PaginationError string errorCode "failure option"
  | Thrown string

fun isPaginationError :: "failure \<Rightarrow> bool" where
  "isPaginationError (PaginationError _ _ _) = True"
| "isPaginationError (Thrown _) = False"

fun codeOf :: "failure \<Rightarrow> errorCode option" where
  "codeOf (PaginationError _ c _) = Some c"
| "codeOf (Thrown _) = None"

fun causeOf :: "failure \<Rightarrow> failure option" where
  "causeOf (PaginationError _ _ c) = c"
| "causeOf (Thrown _) = None"

section \<open>Sort sets (\<^verbatim>\<open>src/sorting.ts\<close>)\<close>

datatype direction = Asc | Desc

text \<open>A sort item: \<^verbatim>\<open>{ col, output?, dir? }\<close>; the field \<^verbatim>\<open>output\<close> is
  \<open>outputKey\<close> here, absent when the item has no such property.\<close>

record sortItem =
  col :: string
  outputKey :: "string option"
  dir :: "direction option"

definition applyDefaultDirection :: "direction option \<Rightarrow> direction" where
  "applyDefaultDirection d = (case d of None \<Rightarrow> Asc | Some x \<Rightarrow> x)"

definition invertSorts :: "sortItem list \<Rightarrow> sortItem list" where
  "invertSorts sorts =
     map (\<lambda>s. s\<lparr>dir := Some (if applyDefaultDirection (dir s) = Desc then Asc else Desc)\<rparr>) sorts"

text \<open>\<^verbatim>\<open>String.prototype.split\<close> with a one-character separator.\<close>

fun js_split :: "char \<Rightarrow> string \<Rightarrow> string list" where
  "js_split sep [] = [[]]"
| "js_split sep (x # xs) =
     (if x = sep then [] # js_split sep xs
      else (case js_split sep xs of w # ws \<Rightarrow> (x # w) # ws | [] \<Rightarrow> [[x]]))"

definition getSortOutput :: "sortItem \<Rightarrow> string" where
  "getSortOutput s =
     (case outputKey s of Some out \<Rightarrow> out | None \<Rightarrow> last (js_split CHR ''.'' (col s)))"

section \<open>The keyset predicate (\<^verbatim>\<open>src/cursor.ts\<close>)\<close>

record cursorPayload =
  sig :: string
  k :: object

text \<open>
  The expression builder \<^verbatim>\<open>eb\<close> is Kysely's; the model records the calls made on it:
  \<^verbatim>\<open>eb(col, op, value)\<close>, \<^verbatim>\<open>eb.and([...])\<close>, \<^verbatim>\<open>eb.or([...])\<close> and the method
  \<^verbatim>\<open>a.and(b)\<close> of an expression.
\<close>

datatype operator = OpGt | OpLt | OpEq | OpIs | OpIsNot

datatype expr =
    Eb string operator jsvalue
  | EbAnd "expr list"
  | EbOr "expr list"
  | WrapAnd expr expr

function buildCursorPredicateRecursive ::
  "sortItem list \<Rightarrow> cursorPayload \<Rightarrow> nat \<Rightarrow> failure + expr" where
  "buildCursorPredicateRecursive sorts decoded idx =
     (if length sorts \<le> idx
      then Inl (PaginationError ''Sort index out of bounds'' UNEXPECTED_ERROR None)
      else
        let s = sorts ! idx;
            d = applyDefaultDirection (dir s);
            c = col s;
            key = getSortOutput s
        in if \<not> hasKey key (k decoded)
           then Inl (PaginationError
                  (''Missing pagination cursor value for '' @ [CHR 0x22] @ key @ [CHR 0x22])
                  INVALID_TOKEN None)
           else
             let v = getProp (k decoded) key;
                 cmp = (if d = Desc then OpLt else OpGt)
             in if idx = length sorts - 1 then Inr (Eb c cmp v)
                else (case buildCursorPredicateRecursive sorts decoded (idx + 1) of
                        Inl e \<Rightarrow> Inl e
                      | Inr next \<Rightarrow>
                          if v = JNull
                          then (if d = Asc
                                then Inr (EbOr [WrapAnd (Eb c OpIs JNull) next, Eb c OpIsNot JNull])
                                else Inr (EbAnd [Eb c OpIs JNull, next]))
                          else Inr (EbOr ([Eb c cmp v, EbAnd [Eb c OpEq v, next]]
                                          @ (if d = Desc then [Eb c OpIs JNull] else [])))))"
  by pat_completeness auto
termination
  by (relation "measure (\<lambda>(sorts, decoded, idx). length sorts - idx)") auto

declare buildCursorPredicateRecursive.simps [simp del]

section \<open>SHA-256 (\<^verbatim>\<open>crypto.createHash("sha256")\<close>, FIPS 180-4)\<close>

text \<open>
  The hash is Node's.  Its 32-bit words are natural numbers below \<open>2^32\<close> with the
  wrap-around written out (\<open>w32\<close>); bytes are natural numbers below 256.  The message
  schedule is streamed: the window holds the sixteen words \<open>W\<^sub>t \<dots> W\<^sub>t\<^sub>+\<^sub>1\<^sub>5\<close>, round
  \<open>t\<close> consumes \<open>W\<^sub>t\<close> and appends \<open>W\<^sub>t\<^sub>+\<^sub>1\<^sub>6\<close>.
\<close>

definition w32 :: "nat \<Rightarrow> nat" where
  "w32 x = x mod 4294967296"

definition rotr :: "nat \<Rightarrow> nat \<Rightarrow> nat" where
  "rotr n x = x div 2 ^ n + (x mod 2 ^ n) * 2 ^ (32 - n)"

definition K256 :: "nat list" where
  "K256 = [1116352408, 1899447441, 3049323471, 3921009573, 961987163, 1508970993, 2453635748,
     2870763221, 3624381080, 310598401, 607225278, 1426881987, 1925078388, 2162078206,
     2614888103, 3248222580, 3835390401, 4022224774, 264347078, 604807628, 770255983,
     1249150122, 1555081692, 1996064986, 2554220882, 2821834349, 2952996808, 3210313671,
     3336571891, 3584528711, 113926993, 338241895, 666307205, 773529912, 1294757372,
     1396182291, 1695183700, 1986661051, 2177026350, 2456956037, 2730485921, 2820302411,
     3259730800, 3345764771, 3516065817, 3600352804, 4094571909, 275423344, 430227734,
     506948616, 659060556, 883997877, 958139571, 1322822218, 1537002063, 1747873779,
     1955562222, 2024104815, 2227730452, 2361852424, 2428436474, 2756734187, 3204031479,
     3329325298]"

definition H256 :: "nat list" where
  "H256 = [1779033703, 3144134277, 1013904242, 2773480762, 1359893119, 2600822924, 528734635,
     1541459225]"

definition Ch :: "nat \<Rightarrow> nat \<Rightarrow> nat \<Rightarrow> nat" where
  "Ch e f g = (e AND f) XOR ((4294967295 - e) AND g)"

definition Maj :: "nat \<Rightarrow> nat \<Rightarrow> nat \<Rightarrow> nat" where
  "Maj a b c = (a AND b) XOR (a AND c) XOR (b AND c)"

definition bsig0 :: "nat \<Rightarrow> nat" where
  "bsig0 a = rotr 2 a XOR rotr 13 a XOR rotr 22 a"

definition bsig1 :: "nat \<Rightarrow> nat" where
  "bsig1 e = rotr 6 e XOR rotr 11 e XOR rotr 25 e"

definition ssig0 :: "nat \<Rightarrow> nat" where
  "ssig0 w = rotr 7 w XOR rotr 18 w XOR w div 2 ^ 3"

definition ssig1 :: "nat \<Rightarrow> nat" where
  "ssig1 w = rotr 17 w XOR rotr 19 w XOR w div 2 ^ 10"

fun sha_round :: "nat list \<Rightarrow> nat \<Rightarrow> nat \<Rightarrow> nat list" where
  "sha_round [a, b, c, d, e, f, g, h] kt wt =
     (let t1 = w32 (h + bsig1 e + Ch e f g + kt + wt);
          t2 = w32 (bsig0 a + Maj a b c)
      in [w32 (t1 + t2), a, b, c, w32 (d + t1), e, f, g])"
| "sha_round st _ _ = st"

fun rounds :: "nat list \<Rightarrow> nat list \<Rightarrow> nat list \<Rightarrow> nat list" where
  "rounds (kt # ks) [w0, w1, w2, w3, w4, w5, w6, w7, w8, w9, w10, w11, w12, w13, w14, w15] st =
     rounds ks
       [w1, w2, w3, w4, w5, w6, w7, w8, w9, w10, w11, w12, w13, w14, w15,
        w32 (ssig1 w14 + w9 + ssig0 w1 + w0)]
       (sha_round st kt w0)"
| "rounds _ _ st = st"

definition compress :: "nat list \<Rightarrow> nat list \<Rightarrow> nat list" where
  "compress hs block = map2 (\<lambda>x y. w32 (x + y)) hs (rounds K256 block hs)"

fun be32 :: "nat list \<Rightarrow> nat list" where
  "be32 (b0 # b1 # b2 # b3 # bs) = (b0 * 16777216 + b1 * 65536 + b2 * 256 + b3) # be32 bs"
| "be32 _ = []"

definition pad :: "nat list \<Rightarrow> nat list" where
  "pad m = m @ [128] @ replicate ((119 - length m mod 64) mod 64) 0 @
     map (\<lambda>i. (8 * length m) div 256 ^ i mod 256) [7, 6, 5, 4, 3, 2, 1, 0]"

fun blocks :: "nat list \<Rightarrow> nat list list" where
  "blocks [] = []"
| "blocks ws = take 16 ws # blocks (drop 16 ws)"

definition sha256 :: "nat list \<Rightarrow> nat list" where
  "sha256 m = foldl compress H256 (blocks (be32 (pad m)))"

definition hexdigit :: "nat \<Rightarrow> char" where
  "hexdigit n = ''0123456789abcdef'' ! n"

definition hex32 :: "nat \<Rightarrow> string" where
  "hex32 w = map (\<lambda>i. hexdigit (w div 16 ^ i mod 16)) [7, 6, 5, 4, 3, 2, 1, 0]"

definition utf8Bytes :: "string \<Rightarrow> nat list" where
  "utf8Bytes s = map of_char s"

text \<open>\<^verbatim>\<open>createHash("sha256").update(s).digest("hex")\<close>\<close>

definition sha256_hex :: "string \<Rightarrow> string" where
  "sha256_hex s = concat (map hex32 (sha256 (utf8Bytes s)))"

section \<open>Sort signature and cursor payloads (\<^verbatim>\<open>src/cursor.ts\<close>)\<close>

text \<open>\<^verbatim>\<open>Array.prototype.join\<close>\<close>

fun join :: "string \<Rightarrow> string list \<Rightarrow> string" where
  "join sep [] = []"
| "join sep [x] = x"
| "join sep (x # y # ys) = x @ sep @ join sep (y # ys)"

definition directionString :: "direction \<Rightarrow> string" where
  "directionString d = (case d of Asc \<Rightarrow> ''asc'' | Desc \<Rightarrow> ''desc'')"

text \<open>The template string of one item:
  \<^verbatim>\<open>`${"output" in s ? s.output : s.col}:${s.dir ?? "asc"}`\<close>.\<close>

definition sigPart :: "sortItem \<Rightarrow> string" where
  "sigPart s =
     (case outputKey s of Some out \<Rightarrow> out | None \<Rightarrow> col s) @ '':''
       @ directionString (applyDefaultDirection (dir s))"

text \<open>The local constant \<^verbatim>\<open>sig\<close> of \<^verbatim>\<open>sortSignature\<close>, before hashing.\<close>

definition sigText :: "sortItem list \<Rightarrow> string" where
  "sigText sorts = join ''|'' (map sigPart sorts)"

definition sortSignature :: "sortItem list \<Rightarrow> string" where
  "sortSignature sorts = take 8 (sha256_hex (sigText sorts))"

definition resolveCursor :: "object \<Rightarrow> sortItem list \<Rightarrow> cursorPayload" where
  "resolveCursor item sorts =
     \<lparr>sig = sortSignature sorts,
      k = fromEntries (map (\<lambda>s. (getSortOutput s, getProp item (getSortOutput s))) sorts)\<rparr>"

text \<open>The payload as the value handed to the codec, and \<^verbatim>\<open>CursorPayloadSchema.parse\<close>
  (Zod: an object with a string \<^verbatim>\<open>sig\<close> and a record \<^verbatim>\<open>k\<close>; other keys are
  stripped; a mismatch throws a \<^verbatim>\<open>ZodError\<close>).\<close>

definition payloadValue :: "cursorPayload \<Rightarrow> jsvalue" where
  "payloadValue p = JObject [(''sig'', JString (sig p)), (''k'', JObject (k p))]"

definition CursorPayloadSchema_parse :: "jsvalue \<Rightarrow> failure + cursorPayload" where
  "CursorPayloadSchema_parse decoded =
     (case decoded of
        JObject obj \<Rightarrow>
          (case (map_of obj ''sig'', map_of obj ''k'') of
             (Some (JString s), Some (JObject kk)) \<Rightarrow> Inr \<lparr>sig = s, k = kk\<rparr>
           | _ \<Rightarrow> Inl (Thrown ''ZodError''))
      | _ \<Rightarrow> Inl (Thrown ''ZodError''))"

section \<open>Codecs (\<^verbatim>\<open>src/codec\<close>)\<close>

text \<open>
  A codec is a pair of functions that may fail; a promise is its outcome.  The codecs of a
  pipe are taken over one type of values, the TypeScript types of the stages are not
  modelled.  \<^verbatim>\<open>superJsonCodec\<close>, \<^verbatim>\<open>createAesCodec\<close> and \<^verbatim>\<open>stashCodec\<close> wrap
  \<^verbatim>\<open>superjson\<close>, Node's \<^verbatim>\<open>crypto\<close> and an external store; the paginator below takes its
  cursor codec as a parameter.
\<close>

record ('i, 'o) codec =
  encode :: "'i \<Rightarrow> failure + 'o"
  decode :: "'o \<Rightarrow> failure + 'i"

text \<open>\<^verbatim>\<open>acc.then((v) => f(v))\<close>: a rejected promise skips the handler.\<close>

definition thenDo :: "failure + 'a \<Rightarrow> ('a \<Rightarrow> failure + 'b) \<Rightarrow> failure + 'b" where
  "thenDo acc f = (case acc of Inl e \<Rightarrow> Inl e | Inr v \<Rightarrow> f v)"

definition codecPipe :: "('a, 'a) codec list \<Rightarrow> ('a, 'a) codec" where
  "codecPipe codecs =
     \<lparr>encode = (\<lambda>v0. foldl (\<lambda>acc c. thenDo acc (\<lambda>v. encode c v)) (Inr v0) codecs),
      decode = (\<lambda>v0. foldr (\<lambda>c acc. thenDo acc (\<lambda>v. decode c v)) codecs (Inr v0))\<rparr>"

subsection \<open>\<^verbatim>\<open>base64UrlCodec\<close>\<close>

text \<open>
  \<^verbatim>\<open>encode: (s) => Buffer.from(s, "utf8").toString("base64url")\<close> and
  \<^verbatim>\<open>decode: (s) => Buffer.from(s, "base64url").toString("utf8")\<close>.  \<^verbatim>\<open>Buffer\<close> is the
  runtime's, not the library's: its two conversions are taken as a parameter, each of
  them a function that may throw, and the codec is the source's two lines over them.
\<close>

datatype encoding = Utf8 | Base64url

record bufferApi =
  bufferFrom :: "string \<Rightarrow> encoding \<Rightarrow> failure + nat list"
  bufferToString :: "nat list \<Rightarrow> encoding \<Rightarrow> failure + string"

definition base64UrlCodec :: "bufferApi \<Rightarrow> (string, string) codec" where
  "base64UrlCodec B =
     \<lparr>encode = (\<lambda>s. thenDo (bufferFrom B s Utf8) (\<lambda>buf. bufferToString B buf Base64url)),
      decode = (\<lambda>s. thenDo (bufferFrom B s Base64url) (\<lambda>buf. bufferToString B buf Utf8))\<rparr>"

text \<open>
  Node's \<^verbatim>\<open>Buffer\<close>, from Node's behaviour: the base64 reader accepts both alphabets,
  skips every character outside them, stops at the first \<^verbatim>\<open>=\<close> and keeps the bytes of an
  incomplete final group; \<^verbatim>\<open>toString("utf8")\<close> replaces each ill-formed part by U+FFFD
  (the decoder of the WHATWG Encoding standard).  Neither call throws on a string.  The
  reader sees the UTF-16 code units of its argument, of a unit above U+00FF the low byte;
  a string of the model is its UTF-8 form, which the reader reads alike when the string is
  ASCII, as every output of the encoder is.
\<close>

definition b64char :: "nat \<Rightarrow> char" where
  "b64char n = ''ABCDEFGHIJKLMNOPQRSTUVWXYZabcdefghijklmnopqrstuvwxyz0123456789-_'' ! n"

fun b64enc :: "nat list \<Rightarrow> string" where
  "b64enc (a # b # c # rest) =
     [b64char (a div 4), b64char ((a mod 4) * 16 + b div 16),
      b64char ((b mod 16) * 4 + c div 64), b64char (c mod 64)] @ b64enc rest"
| "b64enc [a, b] = [b64char (a div 4), b64char ((a mod 4) * 16 + b div 16), b64char ((b mod 16) * 4)]"
| "b64enc [a] = [b64char (a div 4), b64char ((a mod 4) * 16)]"
| "b64enc [] = []"

definition unbase64 :: "char \<Rightarrow> nat option" where
  "unbase64 c =
     (let n = (of_char c :: nat) in
      if 65 \<le> n \<and> n \<le> 90 then Some (n - 65)
      else if 97 \<le> n \<and> n \<le> 122 then Some (n - 71)
      else if 48 \<le> n \<and> n \<le> 57 then Some (n + 4)
      else if c = CHR ''+'' \<or> c = CHR ''-'' then Some 62
      else if c = CHR ''/'' \<or> c = CHR ''_'' then Some 63
      else None)"

fun b64dec :: "nat list \<Rightarrow> nat list" where
  "b64dec (a # b # c # d # rest) =
     [a * 4 + b div 16, (b mod 16) * 16 + c div 4, (c mod 4) * 64 + d] @ b64dec rest"
| "b64dec [a, b, c] = [a * 4 + b div 16, (b mod 16) * 16 + c div 4]"
| "b64dec [a, b] = [a * 4 + b div 16]"
| "b64dec _ = []"

definition bufferFromBase64 :: "string \<Rightarrow> nat list" where
  "bufferFromBase64 s = b64dec (List.map_filter unbase64 (takeWhile (\<lambda>c. c \<noteq> CHR ''='') s))"

text \<open>The UTF-8 decoder: the state is the bytes of the sequence read so far, the number
  of continuation bytes still needed and the bounds of the next byte.\<close>

type_synonym utf8state = "nat list \<times> nat \<times> nat \<times> nat"

definition utf8Replacement :: "nat list" where
  "utf8Replacement = [239, 191, 189]"

definition utf8Lead :: "nat \<Rightarrow> nat list + utf8state" where
  "utf8Lead b =
     (if b < 128 then Inl [b]
      else if 194 \<le> b \<and> b \<le> 223 then Inr ([b], 1, 128, 191)
      else if b = 224 then Inr ([b], 2, 160, 191)
      else if b = 237 then Inr ([b], 2, 128, 159)
      else if 225 \<le> b \<and> b \<le> 239 then Inr ([b], 2, 128, 191)
      else if b = 240 then Inr ([b], 3, 144, 191)
      else if b = 244 then Inr ([b], 3, 128, 143)
      else if 241 \<le> b \<and> b \<le> 243 then Inr ([b], 3, 128, 191)
      else Inl utf8Replacement)"

fun utf8Decode :: "utf8state \<Rightarrow> nat list \<Rightarrow> nat list" where
  "utf8Decode (buf, need, lo, hi) [] = (if need = 0 then [] else utf8Replacement)"
| "utf8Decode (buf, need, lo, hi) (b # bs) =
     (if need = 0 \<or> \<not> (lo \<le> b \<and> b \<le> hi)
      then (if need = 0 then [] else utf8Replacement) @
           (case utf8Lead b of
              Inl out \<Rightarrow> out @ utf8Decode ([], 0, 128, 191) bs
            | Inr st \<Rightarrow> utf8Decode st bs)
      else if need = 1 then buf @ [b] @ utf8Decode ([], 0, 128, 191) bs
      else utf8Decode (buf @ [b], need - 1, 128, 191) bs)"

definition bufferToStringUtf8 :: "nat list \<Rightarrow> string" where
  "bufferToStringUtf8 bs = map char_of (utf8Decode ([], 0, 128, 191) bs)"

definition nodeBuffer :: bufferApi where
  "nodeBuffer =
     \<lparr>bufferFrom = (\<lambda>s enc. Inr (case enc of Utf8 \<Rightarrow> map of_char s
                                              | Base64url \<Rightarrow> bufferFromBase64 s)),
      bufferToString = (\<lambda>buf enc. Inr (case enc of Utf8 \<Rightarrow> bufferToStringUtf8 buf
                                                    | Base64url \<Rightarrow> b64enc buf))\<rparr>"

section \<open>Cursor decoding and page tokens (\<^verbatim>\<open>src/cursor.ts\<close>)\<close>

text \<open>An incoming cursor object: the properties \<^verbatim>\<open>nextPage\<close>, \<^verbatim>\<open>prevPage\<close> and
  \<^verbatim>\<open>offset\<close>, each present or not (\<^verbatim>\<open>"nextPage" in cursor\<close>).\<close>

datatype cursorIncoming = CursorIncoming "string option" "string option" "number option"

datatype cursorType = TNext | TPrev | TOffset

datatype decodedCursor =
    DecodedNext cursorPayload
  | DecodedPrev cursorPayload
  | DecodedOffset number

fun typeOf :: "decodedCursor \<Rightarrow> cursorType" where
  "typeOf (DecodedNext _) = TNext"
| "typeOf (DecodedPrev _) = TPrev"
| "typeOf (DecodedOffset _) = TOffset"

definition decodeCursorPayload :: "string \<Rightarrow> (jsvalue, string) codec \<Rightarrow> failure + cursorPayload" where
  "decodeCursorPayload token keysetCodec = thenDo (decode keysetCodec token) CursorPayloadSchema_parse"

fun decodeCursor :: "cursorIncoming \<Rightarrow> (jsvalue, string) codec \<Rightarrow> failure + decodedCursor" where
  "decodeCursor (CursorIncoming (Some token) _ _) keysetCodec =
     thenDo (decodeCursorPayload token keysetCodec) (\<lambda>p. Inr (DecodedNext p))"
| "decodeCursor (CursorIncoming None (Some token) _) keysetCodec =
     thenDo (decodeCursorPayload token keysetCodec) (\<lambda>p. Inr (DecodedPrev p))"
| "decodeCursor (CursorIncoming None None (Some n)) keysetCodec = Inr (DecodedOffset n)"
| "decodeCursor (CursorIncoming None None None) keysetCodec =
     Inl (PaginationError ''Invalid cursor'' INVALID_TOKEN None)"

record cursorOutgoing =
  startCursor :: "string option"
  endCursor :: "string option"
  prevPage :: "string option"
  nextPage :: "string option"

definition resolvePageTokens ::
  "object list \<Rightarrow> sortItem list \<Rightarrow> (jsvalue, string) codec \<Rightarrow> decodedCursor option \<Rightarrow> bool
     \<Rightarrow> failure + cursorOutgoing" where
  "resolvePageTokens rows sorts cursorCodec decodedCursor overFetched =
     (if length rows = 0
      then Inr \<lparr>startCursor = None, endCursor = None, prevPage = None, nextPage = None\<rparr>
      else
        let inverted = (map_option typeOf decodedCursor = Some TPrev);
            isFirst = (case decodedCursor of
                         None \<Rightarrow> True
                       | Some (DecodedOffset n) \<Rightarrow> n = Num 0
                       | Some _ \<Rightarrow> False)
        in thenDo (encode cursorCodec (payloadValue (resolveCursor (hd rows) sorts))) (\<lambda>sc.
           thenDo (encode cursorCodec (payloadValue (resolveCursor (last rows) sorts))) (\<lambda>ec.
             Inr \<lparr>startCursor = Some sc,
                  endCursor = Some ec,
                  prevPage = (if (\<not> inverted \<or> overFetched) \<and> \<not> isFirst then Some sc else None),
                  nextPage = (if inverted \<or> overFetched then Some ec else None)\<rparr>)))"

record edgeOutgoing =
  node :: object
  cursor :: string

text \<open>\<^verbatim>\<open>Promise.all(rows.map(async ...))\<close>: the result is the list of all outcomes, or a
  failure when some row fails.  When several rows fail, \<^verbatim>\<open>Promise.all\<close> reports the one
  that settles first; the model reports the first in list order, which is the same for a
  codec whose failures settle in the order of the calls.\<close>

fun traverse :: "('a \<Rightarrow> failure + 'b) \<Rightarrow> 'a list \<Rightarrow> failure + 'b list" where
  "traverse f [] = Inr []"
| "traverse f (x # xs) = thenDo (f x) (\<lambda>y. thenDo (traverse f xs) (\<lambda>ys. Inr (y # ys)))"

definition resolveEdges ::
  "object list \<Rightarrow> sortItem list \<Rightarrow> (jsvalue, string) codec \<Rightarrow> failure + edgeOutgoing list" where
  "resolveEdges rows sorts cursorCodec =
     (if length rows = 0 then Inr []
      else traverse (\<lambda>row. thenDo (encode cursorCodec (payloadValue (resolveCursor row sorts)))
                             (\<lambda>c. Inr \<lparr>node = row, cursor = c\<rparr>)) rows)"

section \<open>Dialects (\<^verbatim>\<open>src/dialect\<close>)\<close>

record 'q paginationDialect =
  applyLimit :: "'q \<Rightarrow> number \<Rightarrow> cursorType option \<Rightarrow> failure + 'q"
  applyOffset :: "'q \<Rightarrow> number \<Rightarrow> failure + 'q"
  applySort :: "'q \<Rightarrow> sortItem list \<Rightarrow> failure + 'q"
  applyCursor :: "'q \<Rightarrow> sortItem list \<Rightarrow> decodedCursor \<Rightarrow> failure + 'q"

text \<open>Kysely's immutable \<^verbatim>\<open>SelectQueryBuilder\<close>, as the calls made on it so far.\<close>

datatype nullsPosition = NullsFirst | NullsLast

datatype builderCall =
    OrderBy string direction
  | OrderByNulls string direction nullsPosition
  | Limit number
  | Offset number
  | Top number
  | Fetch number
  | Where expr

type_synonym builder = "builderCall list"

text \<open>\<^verbatim>\<open>builder.where((eb) => buildCursorPredicateRecursive(eb, sorts, cursor.payload))\<close>;
  Kysely calls the callback at once.  An offset cursor has no \<^verbatim>\<open>payload\<close>: the builder
  then throws on an empty sort set as it does for any payload, and otherwise a
  \<^verbatim>\<open>TypeError\<close> on reading \<^verbatim>\<open>decoded.k\<close>.\<close>

definition baseApplyCursor :: "builder \<Rightarrow> sortItem list \<Rightarrow> decodedCursor \<Rightarrow> failure + builder" where
  "baseApplyCursor b sorts c =
     (case c of
        DecodedNext p \<Rightarrow>
          thenDo (buildCursorPredicateRecursive sorts p 0) (\<lambda>e. Inr (b @ [Where e]))
      | DecodedPrev p \<Rightarrow>
          thenDo (buildCursorPredicateRecursive sorts p 0) (\<lambda>e. Inr (b @ [Where e]))
      | DecodedOffset _ \<Rightarrow>
          if sorts = []
          then Inl (PaginationError ''Sort index out of bounds'' UNEXPECTED_ERROR None)
          else Inl (Thrown ''TypeError''))"

definition orderByEach :: "builder \<Rightarrow> sortItem list \<Rightarrow> builder" where
  "orderByEach b sorts = foldl (\<lambda>b s. b @ [OrderBy (col s) (applyDefaultDirection (dir s))]) b sorts"

definition MssqlPaginationDialect :: "builder paginationDialect" where
  "MssqlPaginationDialect =
     \<lparr>applyLimit = (\<lambda>b n t. if t = Some TOffset then Inr (b @ [Fetch n]) else Inr (b @ [Top n])),
      applyOffset = (\<lambda>b n. Inr (b @ [Offset n])),
      applySort = (\<lambda>b sorts. Inr (orderByEach b sorts)),
      applyCursor = baseApplyCursor\<rparr>"

definition MysqlPaginationDialect :: "builder paginationDialect" where
  "MysqlPaginationDialect =
     \<lparr>applyLimit = (\<lambda>b n t. Inr (b @ [Limit n])),
      applyOffset = (\<lambda>b n. Inr (b @ [Offset n])),
      applySort = (\<lambda>b sorts. Inr (orderByEach b sorts)),
      applyCursor = baseApplyCursor\<rparr>"

definition PostgresPaginationDialect :: "builder paginationDialect" where
  "PostgresPaginationDialect =
     \<lparr>applyLimit = (\<lambda>b n t. Inr (b @ [Limit n])),
      applyOffset = (\<lambda>b n. Inr (b @ [Offset n])),
      applySort = (\<lambda>b sorts. Inr (foldl (\<lambda>b s.
         b @ [if applyDefaultDirection (dir s) = Asc
              then OrderByNulls (col s) Asc NullsFirst
              else OrderByNulls (col s) Desc NullsLast]) b sorts)),
      applyCursor = baseApplyCursor\<rparr>"

definition SqlitePaginationDialect :: "builder paginationDialect" where
  "SqlitePaginationDialect =
     \<lparr>applyLimit = (\<lambda>b n t. Inr (b @ [Limit n])),
      applyOffset = (\<lambda>b n. Inr (b @ [Offset n])),
      applySort = (\<lambda>b sorts. Inr (orderByEach b sorts)),
      applyCursor = baseApplyCursor\<rparr>"

section \<open>The paginator (\<^verbatim>\<open>src/paginator.ts\<close>)\<close>

text \<open>\<^verbatim>\<open>Number.isInteger(n)\<close>, \<^verbatim>\<open>n > 0\<close>, \<^verbatim>\<open>n + 1\<close>, \<^verbatim>\<open>len > n\<close> and
  \<^verbatim>\<open>rows.slice(0, n)\<close>.  Sums are exact: the rounding of doubles above \<open>2^53\<close> is not
  modelled.\<close>

fun isInteger :: "number \<Rightarrow> bool" where
  "isInteger (Num q) = (of_int \<lfloor>q\<rfloor> = q)"
| "isInteger _ = False"

fun gtZero :: "number \<Rightarrow> bool" where
  "gtZero (Num q) = (0 < q)"
| "gtZero PosInfinity = True"
| "gtZero _ = False"

fun addOne :: "number \<Rightarrow> number" where
  "addOne (Num q) = Num (q + 1)"
| "addOne n = n"

fun lengthGt :: "nat \<Rightarrow> number \<Rightarrow> bool" where
  "lengthGt len (Num q) = (q < of_nat len)"
| "lengthGt len NegInfinity = True"
| "lengthGt len _ = False"

fun slice0 :: "'a list \<Rightarrow> number \<Rightarrow> 'a list" where
  "slice0 xs (Num q) =
     (let e = (if 0 \<le> q then \<lfloor>q\<rfloor> else \<lceil>q\<rceil>)
      in if e < 0 then take (nat (int (length xs) + e)) xs else take (nat e) xs)"
| "slice0 xs PosInfinity = xs"
| "slice0 xs _ = []"

definition assertLimitSorts :: "number \<Rightarrow> sortItem list \<Rightarrow> failure + unit" where
  "assertLimitSorts limit sorts =
     (if \<not> (isInteger limit \<and> gtZero limit)
      then Inl (PaginationError ''Invalid page size limit'' INVALID_LIMIT None)
      else if length sorts < 1
      then Inl (PaginationError ''Cannot paginate without sorting'' INVALID_SORT None)
      else Inr ())"

fun payloadOf :: "decodedCursor \<Rightarrow> cursorPayload option" where
  "payloadOf (DecodedNext p) = Some p"
| "payloadOf (DecodedPrev p) = Some p"
| "payloadOf (DecodedOffset _) = None"

text \<open>\<^verbatim>\<open>!!token\<close>: the empty string is falsy, like \<^verbatim>\<open>undefined\<close>.\<close>

definition truthy :: "string option \<Rightarrow> bool" where
  "truthy t = (case t of None \<Rightarrow> False | Some s \<Rightarrow> s \<noteq> [])"

text \<open>\<^verbatim>\<open>catch (error) { if (error instanceof PaginationError) throw error; throw new
  PaginationError({ message, cause: error, code: "UNEXPECTED_ERROR" }) }\<close>\<close>

definition catchWrap :: "string \<Rightarrow> failure + 'a \<Rightarrow> failure + 'a" where
  "catchWrap msg r =
     (case r of
        Inl error \<Rightarrow>
          if isPaginationError error then Inl error
          else Inl (PaginationError msg UNEXPECTED_ERROR (Some error))
      | Inr v \<Rightarrow> Inr v)"

record pageInfo = cursorOutgoing +
  hasPrevPage :: bool
  hasNextPage :: bool

record paginatedResult = pageInfo +
  items :: "object list"

record paginatedResultWithEdges = pageInfo +
  edges :: "edgeOutgoing list"

text \<open>The steps of the \<^verbatim>\<open>try\<close> block of \<^verbatim>\<open>paginate\<close>, under the names of its local
  constants: \<^verbatim>\<open>decodedCursor\<close>, \<^verbatim>\<open>sortsApplied\<close>, the query \<^verbatim>\<open>q\<close> as constrained
  before \<^verbatim>\<open>q.execute()\<close>, and \<^verbatim>\<open>items\<close>.  \<open>exec\<close> is the \<^verbatim>\<open>execute\<close> method of the
  query; \<open>cursorCodec\<close> is the codec in effect (the default one when the caller gives none).\<close>

definition decodedCursorOf ::
  "cursorIncoming option \<Rightarrow> (jsvalue, string) codec \<Rightarrow> failure + decodedCursor option" where
  "decodedCursorOf incoming cursorCodec =
     (case incoming of
        None \<Rightarrow> Inr None
      | Some c \<Rightarrow> thenDo (decodeCursor c cursorCodec) (\<lambda>d. Inr (Some d)))"

definition sortsApplied :: "sortItem list \<Rightarrow> decodedCursor option \<Rightarrow> sortItem list" where
  "sortsApplied sorts decodedCursor =
     (if map_option typeOf decodedCursor = Some TPrev then invertSorts sorts else sorts)"

definition constrainQuery ::
  "'q paginationDialect \<Rightarrow> 'q \<Rightarrow> sortItem list \<Rightarrow> number \<Rightarrow> decodedCursor option \<Rightarrow> failure + 'q" where
  "constrainQuery dialect query sorts limit decodedCursor =
     thenDo (applySort dialect query (sortsApplied sorts decodedCursor)) (\<lambda>q1.
     thenDo (applyLimit dialect q1 (addOne limit) (map_option typeOf decodedCursor)) (\<lambda>q2.
       case decodedCursor of
         None \<Rightarrow> Inr q2
       | Some (DecodedOffset n) \<Rightarrow> applyOffset dialect q2 n
       | Some c \<Rightarrow>
           if map_option sig (payloadOf c) \<noteq> Some (sortSignature sorts)
           then Inl (PaginationError ''Page token does not match sort order'' INVALID_TOKEN None)
           else applyCursor dialect q2 (sortsApplied sorts decodedCursor) c))"

definition pageItems :: "decodedCursor option \<Rightarrow> number \<Rightarrow> object list \<Rightarrow> object list" where
  "pageItems decodedCursor limit rows =
     (if map_option typeOf decodedCursor = Some TPrev then rev (slice0 rows limit)
      else slice0 rows limit)"

definition paginateTry ::
  "'q paginationDialect \<Rightarrow> (jsvalue, string) codec \<Rightarrow> ('q \<Rightarrow> failure + object list) \<Rightarrow>
   'q \<Rightarrow> sortItem list \<Rightarrow> number \<Rightarrow> cursorIncoming option \<Rightarrow> failure + paginatedResult" where
  "paginateTry dialect cursorCodec exec query sorts limit incoming =
     thenDo (decodedCursorOf incoming cursorCodec) (\<lambda>decodedCursor.
     thenDo (constrainQuery dialect query sorts limit decodedCursor) (\<lambda>q.
     thenDo (exec q) (\<lambda>rows.
     thenDo (resolvePageTokens (pageItems decodedCursor limit rows) sorts cursorCodec decodedCursor
               (lengthGt (length rows) limit)) (\<lambda>t.
       Inr \<lparr>startCursor = startCursor t, endCursor = endCursor t,
            prevPage = prevPage t, nextPage = nextPage t,
            hasPrevPage = truthy (prevPage t), hasNextPage = truthy (nextPage t),
            items = pageItems decodedCursor limit rows\<rparr>))))"

definition paginate ::
  "'q paginationDialect \<Rightarrow> (jsvalue, string) codec \<Rightarrow> ('q \<Rightarrow> failure + object list) \<Rightarrow>
   'q \<Rightarrow> sortItem list \<Rightarrow> number \<Rightarrow> cursorIncoming option \<Rightarrow> failure + paginatedResult" where
  "paginate dialect cursorCodec exec query sorts limit incoming =
     thenDo (assertLimitSorts limit sorts) (\<lambda>_.
       catchWrap ''Failed to paginate''
         (paginateTry dialect cursorCodec exec query sorts limit incoming))"

definition paginateWithEdges ::
  "'q paginationDialect \<Rightarrow> (jsvalue, string) codec \<Rightarrow> ('q \<Rightarrow> failure + object list) \<Rightarrow>
   'q \<Rightarrow> sortItem list \<Rightarrow> number \<Rightarrow> cursorIncoming option \<Rightarrow> failure + paginatedResultWithEdges" where
  "paginateWithEdges dialect cursorCodec exec query sorts limit incoming =
     thenDo (paginate dialect cursorCodec exec query sorts limit incoming) (\<lambda>r.
       catchWrap ''Failed to generate edges''
         (thenDo (resolveEdges (items r) sorts cursorCodec) (\<lambda>es.
            Inr \<lparr>startCursor = startCursor r, endCursor = endCursor r,
                 prevPage = prevPage r, nextPage = nextPage r,
                 hasPrevPage = hasPrevPage r, hasNextPage = hasNextPage r,
                 edges = es\<rparr>)))"

section \<open>Example inputs\<close>

text \<open>A one-column sort set on a qualified column, rows of a table, a codec that looks
  tokens up in a fixed table (as the stash codec does in its store), and a query executor that
  answers one expected query.\<close>

definition idSorts :: "sortItem list" where
  "idSorts = [\<lparr>col = ''users.id'', outputKey = None, dir = None\<rparr>]"

definition idRow :: "rat \<Rightarrow> object" where
  "idRow i = [(''id'', JNumber (Num i)), (''name'', JString ''n'')]"

definition tableCodec :: "(string \<times> jsvalue) list \<Rightarrow> (jsvalue, string) codec" where
  "tableCodec tab =
     \<lparr>encode = (\<lambda>v. case List.find (\<lambda>(t, u). u = v) tab of
                       Some (t, u) \<Rightarrow> Inr t
                     | None \<Rightarrow> Inl (Thrown ''no token for this value'')),
      decode = (\<lambda>t. case map_of tab t of
                       Some v \<Rightarrow> Inr v
                     | None \<Rightarrow> Inl (Thrown ''unknown token''))\<rparr>"

definition idCodec :: "(jsvalue, string) codec" where
  "idCodec = tableCodec
     [(''c1'', payloadValue (resolveCursor (idRow 1) idSorts)),
      (''c2'', payloadValue (resolveCursor (idRow 2) idSorts)),
      (''c3'', payloadValue (resolveCursor (idRow 3) idSorts)),
      (''c4'', payloadValue (resolveCursor (idRow 4) idSorts)),
      (''stale'', JObject [(''sig'', JString ''0000000''), (''k'', JObject [(''id'', JNumber (Num 2))])]),
      (''shape'', JObject [(''sig'', JNumber (Num 1))])]"

definition execOn :: "builder \<Rightarrow> object list \<Rightarrow> builder \<Rightarrow> failure + object list" where
  "execOn expected rows q = (if q = expected then Inr rows else Inl (Thrown ''another query''))"

definition emptyTokenCodec :: "(jsvalue, string) codec" where
  "emptyTokenCodec = \<lparr>encode = (\<lambda>v. Inr []), decode = (\<lambda>t. Inl (Thrown ''no payload''))\<rparr>"

section \<open>Properties of the keyset predicate\<close>

lemma bcp_out_of_bounds:
  "length sorts \<le> idx \<Longrightarrow>
   buildCursorPredicateRecursive sorts decoded idx =
     Inl (PaginationError ''Sort index out of bounds'' UNEXPECTED_ERROR None)"
  by (simp add: buildCursorPredicateRecursive.simps)










section \<open>Properties of codec composition\<close>

lemma thenDo_simps:
  "thenDo (Inl e) f = Inl e" "thenDo (Inr v) f = f v"
  by (simp_all add: thenDo_def)

lemma thenDo_Inr_iff: "thenDo r f = Inr y \<longleftrightarrow> (\<exists>v. r = Inr v \<and> f v = Inr y)"
  by (cases r) (simp_all add: thenDo_def)

lemma thenDo_Inl_iff: "thenDo r f = Inl e \<longleftrightarrow> (r = Inl e \<or> (\<exists>v. r = Inr v \<and> f v = Inl e))"
  by (cases r) (simp_all add: thenDo_def)

lemma foldl_thenDo_Inl: "foldl (\<lambda>acc c. thenDo acc (g c)) (Inl e) cs = Inl e"
  by (induction cs) (simp_all add: thenDo_simps)

lemma foldl_thenDo:
  "foldl (\<lambda>acc c. thenDo acc (g c)) acc cs = thenDo acc (\<lambda>v. foldl (\<lambda>acc c. thenDo acc (g c)) (Inr v) cs)"
  by (cases acc) (simp_all add: thenDo_simps foldl_thenDo_Inl)

lemma codecPipe_encode_Nil: "encode (codecPipe []) v = Inr v"
  by (simp add: codecPipe_def)

lemma codecPipe_decode_Nil: "decode (codecPipe []) w = Inr w"
  by (simp add: codecPipe_def)

lemma codecPipe_encode_Cons:
  "encode (codecPipe (c # cs)) v = thenDo (encode c v) (encode (codecPipe cs))"
proof -
  have "encode (codecPipe (c # cs)) v =
        foldl (\<lambda>acc c. thenDo acc (encode c)) (encode c v) cs"
    by (simp add: codecPipe_def thenDo_simps)
  also have "\<dots> = thenDo (encode c v) (\<lambda>v. foldl (\<lambda>acc c. thenDo acc (encode c)) (Inr v) cs)"
    by (rule foldl_thenDo)
  finally show ?thesis by (simp add: codecPipe_def)
qed

lemma codecPipe_decode_Cons:
  "decode (codecPipe (c # cs)) w = thenDo (decode (codecPipe cs) w) (decode c)"
  by (simp add: codecPipe_def)

lemma codecPipe_roundtrip:
  "(\<forall>c \<in> set cs. \<forall>x y. encode c x = Inr y \<longrightarrow> decode c y = Inr x) \<Longrightarrow>
   encode (codecPipe cs) v = Inr y \<Longrightarrow> decode (codecPipe cs) y = Inr v"
proof (induction cs arbitrary: v)
  case Nil
  then show ?case by (simp add: codecPipe_encode_Nil codecPipe_decode_Nil)
next
  case (Cons c cs)
  from Cons.prems(2) obtain u where u: "encode c v = Inr u" "encode (codecPipe cs) u = Inr y"
    by (auto simp add: codecPipe_encode_Cons thenDo_Inr_iff)
  from Cons.prems(1) have "\<forall>c \<in> set cs. \<forall>x y. encode c x = Inr y \<longrightarrow> decode c y = Inr x"
    by simp
  with u(2) have "decode (codecPipe cs) y = Inr u" by (rule Cons.IH [rotated])
  moreover from Cons.prems(1) u(1) have "decode c u = Inr v" by simp
  ultimately show ?case by (simp add: codecPipe_decode_Cons thenDo_simps)
qed

text \<open>
  Claim C8.  The codec made by \<^verbatim>\<open>codecPipe\<close> encodes with the codecs from left to
  right, the output of each feeding the next, and decodes with them in the inverse order; a
  failure of one step is the failure of the whole.  The equations peel off the first codec
  of the list, down to the empty list, and are written out for a list of three.  If every
  codec of the list gives back \<open>x\<close> when it decodes what it encoded from \<open>x\<close>, so
  does the composed codec.
\<close>

theorem codecPipe_order_roundtrip:
  "encode (codecPipe []) v = Inr v \<and> decode (codecPipe []) w = Inr w \<and>
   encode (codecPipe (c # cs)) v = thenDo (encode c v) (encode (codecPipe cs)) \<and>
   decode (codecPipe (c # cs)) w = thenDo (decode (codecPipe cs) w) (decode c) \<and>
   encode (codecPipe [c1, c2, c3]) v = thenDo (thenDo (encode c1 v) (encode c2)) (encode c3) \<and>
   decode (codecPipe [c1, c2, c3]) w = thenDo (thenDo (decode c3 w) (decode c2)) (decode c1) \<and>
   ((\<forall>c' \<in> set (c # cs). \<forall>x y. encode c' x = Inr y \<longrightarrow> decode c' y = Inr x) \<longrightarrow>
    (\<forall>y. encode (codecPipe (c # cs)) v = Inr y \<longrightarrow> decode (codecPipe (c # cs)) y = Inr v))"
proof -
  have e3: "encode (codecPipe [c1, c2, c3]) v = thenDo (thenDo (encode c1 v) (encode c2)) (encode c3)"
    by (simp add: codecPipe_def thenDo_simps)
  have d3: "decode (codecPipe [c1, c2, c3]) w = thenDo (thenDo (decode c3 w) (decode c2)) (decode c1)"
    by (simp add: codecPipe_def thenDo_simps)
  have rt: "(\<forall>c' \<in> set (c # cs). \<forall>x y. encode c' x = Inr y \<longrightarrow> decode c' y = Inr x) \<longrightarrow>
    (\<forall>y. encode (codecPipe (c # cs)) v = Inr y \<longrightarrow> decode (codecPipe (c # cs)) y = Inr v)"
    using codecPipe_roundtrip [of "c # cs" v] by blast
  show ?thesis
    apply (intro conjI)
          apply (rule codecPipe_encode_Nil)
         apply (rule codecPipe_decode_Nil)
        apply (rule codecPipe_encode_Cons)
       apply (rule codecPipe_decode_Cons)
      apply (rule e3)
     apply (rule d3)
    apply (rule rt)
    done
qed

theorem codecPipe_order_roundtrip_witness:
  "encode (codecPipe [\<lparr>encode = (\<lambda>x::nat. Inr (x + 1)),
                       decode = (\<lambda>y. if y = 0 then Inl (Thrown ''range'') else Inr (y - 1))\<rparr>,
                      \<lparr>encode = (\<lambda>x. Inr (2 * x)),
                       decode = (\<lambda>y. if even y then Inr (y div 2) else Inl (Thrown ''odd''))\<rparr>]) 3
     = Inr 8 \<and>
   decode (codecPipe [\<lparr>encode = (\<lambda>x::nat. Inr (x + 1)),
                       decode = (\<lambda>y. if y = 0 then Inl (Thrown ''range'') else Inr (y - 1))\<rparr>,
                      \<lparr>encode = (\<lambda>x. Inr (2 * x)),
                       decode = (\<lambda>y. if even y then Inr (y div 2) else Inl (Thrown ''odd''))\<rparr>]) 8
     = Inr 3 \<and>
   decode (codecPipe [\<lparr>encode = (\<lambda>x::nat. Inr (x + 1)),
                       decode = (\<lambda>y. if y = 0 then Inl (Thrown ''range'') else Inr (y - 1))\<rparr>,
                      \<lparr>encode = (\<lambda>x. Inr (2 * x)),
                       decode = (\<lambda>y. if even y then Inr (y div 2) else Inl (Thrown ''odd''))\<rparr>]) 7
     = Inl (Thrown ''odd'')"
  using codecPipe_order_roundtrip
    [where v = 3 and w = 8
       and c = "\<lparr>encode = (\<lambda>x::nat. Inr (x + 1)),
                 decode = (\<lambda>y. if y = 0 then Inl (Thrown ''range'') else Inr (y - 1))\<rparr>"
       and cs = "[\<lparr>encode = (\<lambda>x. Inr (2 * x)),
                  decode = (\<lambda>y. if even y then Inr (y div 2) else Inl (Thrown ''odd''))\<rparr>]"]
  by (simp add: codecPipe_def thenDo_def)

section \<open>Properties of the paginator\<close>

lemma catchWrap_Inr_iff: "catchWrap msg r = Inr v \<longleftrightarrow> r = Inr v"
  by (cases r) (simp_all add: catchWrap_def)

lemma catchWrap_Inl:
  "r = Inl e \<Longrightarrow>
   catchWrap msg r = Inl (if isPaginationError e then e else PaginationError msg UNEXPECTED_ERROR (Some e))"
  by (simp add: catchWrap_def)

lemma catchWrap_Inl_iff:
  "catchWrap msg r = Inl e' \<longleftrightarrow>
   (\<exists>e. r = Inl e \<and> e' = (if isPaginationError e then e else PaginationError msg UNEXPECTED_ERROR (Some e)))"
  by (cases r) (auto simp add: catchWrap_def)

lemma positive_integer_iff:
  "isInteger limit \<and> gtZero limit \<longleftrightarrow> (\<exists>n. 0 < n \<and> limit = Num (of_nat n))"
proof
  assume a: "isInteger limit \<and> gtZero limit"
  then obtain q where q: "limit = Num q" by (cases limit) simp_all
  with a obtain z :: int where z: "q = of_int z" and p: "0 < q" by auto
  from z p have "0 < z" by simp
  then have "of_nat (nat z) = (of_int z :: rat)" "0 < nat z" by simp_all
  with q z show "\<exists>n. 0 < n \<and> limit = Num (of_nat n)" by metis
next
  assume "\<exists>n. 0 < n \<and> limit = Num (of_nat n)"
  then show "isInteger limit \<and> gtZero limit" by auto
qed

lemma assertLimitSorts_Inr_iff:
  "assertLimitSorts limit sorts = Inr u \<longleftrightarrow> (\<exists>n. 0 < n \<and> limit = Num (of_nat n)) \<and> sorts \<noteq> []"
  unfolding positive_integer_iff [symmetric]
  by (auto simp add: assertLimitSorts_def)

lemma slice0_nat: "slice0 rows (Num (of_nat n)) = take n rows"
  by (simp add: Let_def)

lemma lengthGt_nat: "lengthGt len (Num (of_nat n)) = (n < len)"
  by simp

lemma paginate_Inr_iff:
  "paginate dialect cursorCodec exec query sorts limit incoming = Inr res \<longleftrightarrow>
   assertLimitSorts limit sorts = Inr () \<and>
   paginateTry dialect cursorCodec exec query sorts limit incoming = Inr res"
  by (auto simp add: paginate_def thenDo_Inr_iff catchWrap_Inr_iff)

lemma paginateTry_Inr_iff:
  "paginateTry dialect cursorCodec exec query sorts limit incoming = Inr res \<longleftrightarrow>
   (\<exists>dc q rows t.
      decodedCursorOf incoming cursorCodec = Inr dc \<and>
      constrainQuery dialect query sorts limit dc = Inr q \<and>
      exec q = Inr rows \<and>
      resolvePageTokens (pageItems dc limit rows) sorts cursorCodec dc
        (lengthGt (length rows) limit) = Inr t \<and>
      res = \<lparr>startCursor = startCursor t, endCursor = endCursor t,
             prevPage = prevPage t, nextPage = nextPage t,
             hasPrevPage = truthy (prevPage t), hasNextPage = truthy (nextPage t),
             items = pageItems dc limit rows\<rparr>)"
  by (simp add: paginateTry_def thenDo_Inr_iff) blast

lemma constrainQuery_Inr_iff:
  "constrainQuery dialect query sorts limit dc = Inr q \<longleftrightarrow>
   (\<exists>q1 q2.
      applySort dialect query (sortsApplied sorts dc) = Inr q1 \<and>
      applyLimit dialect q1 (addOne limit) (map_option typeOf dc) = Inr q2 \<and>
      (case dc of
         None \<Rightarrow> q = q2
       | Some (DecodedOffset n) \<Rightarrow> applyOffset dialect q2 n = Inr q
       | Some (DecodedNext p) \<Rightarrow>
           sig p = sortSignature sorts \<and>
           applyCursor dialect q2 (sortsApplied sorts dc) (DecodedNext p) = Inr q
       | Some (DecodedPrev p) \<Rightarrow>
           sig p = sortSignature sorts \<and>
           applyCursor dialect q2 (sortsApplied sorts dc) (DecodedPrev p) = Inr q))"
proof (cases dc)
  case None
  then show ?thesis by (simp add: constrainQuery_def thenDo_Inr_iff)
next
  case (Some c)
  then show ?thesis
    by (cases c) (auto simp add: constrainQuery_def thenDo_Inr_iff)
qed

lemma resolvePageTokens_Nil:
  "resolvePageTokens [] sorts cursorCodec dc over =
   Inr \<lparr>startCursor = None, endCursor = None, prevPage = None, nextPage = None\<rparr>"
  by (simp add: resolvePageTokens_def)

lemma isFirst_eq:
  "(case dc of None \<Rightarrow> True | Some (DecodedOffset n) \<Rightarrow> n = Num 0 | Some _ \<Rightarrow> False)
     = (dc = None \<or> dc = Some (DecodedOffset (Num 0)))"
proof (cases dc)
  case None
  then show ?thesis by simp
next
  case (Some c)
  then show ?thesis by (cases c) auto
qed

lemma resolvePageTokens_nonempty:
  "rows \<noteq> [] \<Longrightarrow>
   resolvePageTokens rows sorts cursorCodec dc over =
     thenDo (encode cursorCodec (payloadValue (resolveCursor (hd rows) sorts))) (\<lambda>sc.
     thenDo (encode cursorCodec (payloadValue (resolveCursor (last rows) sorts))) (\<lambda>ec.
       Inr \<lparr>startCursor = Some sc, endCursor = Some ec,
            prevPage = (if (map_option typeOf dc \<noteq> Some TPrev \<or> over) \<and>
                           \<not> (dc = None \<or> dc = Some (DecodedOffset (Num 0)))
                        then Some sc else None),
            nextPage = (if map_option typeOf dc = Some TPrev \<or> over then Some ec else None)\<rparr>))"
  by (simp only: resolvePageTokens_def Let_def isFirst_eq length_0_conv if_False)

lemma resolvePageTokens_InrD:
  assumes ne: "rows \<noteq> []"
    and r: "resolvePageTokens rows sorts cursorCodec dc over = Inr t"
  shows "\<exists>sc ec.
      encode cursorCodec (payloadValue (resolveCursor (hd rows) sorts)) = Inr sc \<and>
      encode cursorCodec (payloadValue (resolveCursor (last rows) sorts)) = Inr ec \<and>
      t = \<lparr>startCursor = Some sc, endCursor = Some ec,
           prevPage = (if (map_option typeOf dc \<noteq> Some TPrev \<or> over) \<and>
                          \<not> (dc = None \<or> dc = Some (DecodedOffset (Num 0)))
                       then Some sc else None),
           nextPage = (if map_option typeOf dc = Some TPrev \<or> over then Some ec else None)\<rparr>"
proof -
  note u = r [unfolded resolvePageTokens_nonempty [OF ne]]
  from u obtain sc where sc: "encode cursorCodec (payloadValue (resolveCursor (hd rows) sorts)) = Inr sc"
    by (cases "encode cursorCodec (payloadValue (resolveCursor (hd rows) sorts))")
       (simp_all only: thenDo_simps sum.distinct)
  note u2 = u [unfolded sc thenDo_simps]
  from u2 obtain ec where ec: "encode cursorCodec (payloadValue (resolveCursor (last rows) sorts)) = Inr ec"
    by (cases "encode cursorCodec (payloadValue (resolveCursor (last rows) sorts))")
       (simp_all only: thenDo_simps sum.distinct)
  note u3 = u2 [unfolded ec thenDo_simps sum.inject, symmetric]
  from sc ec u3 show ?thesis by blast
qed

lemmas run_defs =
  paginate_def paginateTry_def thenDo_def decodedCursorOf_def constrainQuery_def sortsApplied_def
  pageItems_def resolvePageTokens_def resolveCursor_def payloadValue_def fromEntries_def
  getProp_def getSortOutput_def assertLimitSorts_def catchWrap_def truthy_def
  SqlitePaginationDialect_def orderByEach_def applyDefaultDirection_def Let_def
  idSorts_def idRow_def idCodec_def tableCodec_def execOn_def invertSorts_def
  decodeCursorPayload_def CursorPayloadSchema_parse_def baseApplyCursor_def
  buildCursorPredicateRecursive.simps hasKey_def ObjectPrototype_def

lemma invertSorts_nth:
  "i < length sorts \<Longrightarrow>
   col (invertSorts sorts ! i) = col (sorts ! i) \<and>
   outputKey (invertSorts sorts ! i) = outputKey (sorts ! i) \<and>
   dir (invertSorts sorts ! i) =
     (case dir (sorts ! i) of None \<Rightarrow> Some Desc | Some Asc \<Rightarrow> Some Desc | Some Desc \<Rightarrow> Some Asc)"
  by (auto simp add: invertSorts_def applyDefaultDirection_def split: option.splits direction.splits)

lemma length_invertSorts: "length (invertSorts sorts) = length sorts"
  by (simp add: invertSorts_def)

lemma decodedCursorOf_prev_iff:
  "decodedCursorOf incoming cursorCodec = Inr dc \<Longrightarrow>
   (map_option typeOf dc = Some TPrev) = (\<exists>t off. incoming = Some (CursorIncoming None (Some t) off))"
proof (cases incoming)
  case None
  assume "decodedCursorOf incoming cursorCodec = Inr dc"
  with None show ?thesis by (simp add: decodedCursorOf_def)
next
  case (Some c)
  assume a: "decodedCursorOf incoming cursorCodec = Inr dc"
  obtain np pp off where c: "c = CursorIncoming np pp off" by (cases c)
  from a Some c show ?thesis
    by (cases np; cases pp; cases off) (auto simp add: decodedCursorOf_def thenDo_Inr_iff)
qed

lemma decodedCursorOf_None_iff:
  "decodedCursorOf incoming cursorCodec = Inr dc \<Longrightarrow> (dc = None) = (incoming = None)"
  by (cases incoming) (auto simp add: decodedCursorOf_def thenDo_Inr_iff)

lemma paginate_InrD:
  assumes "paginate dialect cursorCodec exec query sorts limit incoming = Inr res"
  shows "\<exists>n dc q rows t.
      0 < n \<and> limit = Num (of_nat n) \<and> sorts \<noteq> [] \<and>
      decodedCursorOf incoming cursorCodec = Inr dc \<and>
      constrainQuery dialect query sorts limit dc = Inr q \<and>
      exec q = Inr rows \<and>
      resolvePageTokens (pageItems dc limit rows) sorts cursorCodec dc (n < length rows) = Inr t \<and>
      pageItems dc limit rows =
        (if map_option typeOf dc = Some TPrev then rev (take n rows) else take n rows) \<and>
      res = \<lparr>startCursor = startCursor t, endCursor = endCursor t,
             prevPage = prevPage t, nextPage = nextPage t,
             hasPrevPage = truthy (prevPage t), hasNextPage = truthy (nextPage t),
             items = pageItems dc limit rows\<rparr>"
proof -
  from assms have a: "assertLimitSorts limit sorts = Inr ()"
    and b: "paginateTry dialect cursorCodec exec query sorts limit incoming = Inr res"
    by (simp_all add: paginate_Inr_iff)
  from a obtain n where n: "0 < n" "limit = Num (of_nat n)" and s: "sorts \<noteq> []"
    by (auto simp add: assertLimitSorts_Inr_iff)
  from b obtain dc q rows t where
      d: "decodedCursorOf incoming cursorCodec = Inr dc"
      "constrainQuery dialect query sorts limit dc = Inr q"
      "exec q = Inr rows"
      and t: "resolvePageTokens (pageItems dc limit rows) sorts cursorCodec dc
        (lengthGt (length rows) limit) = Inr t"
      and r: "res = \<lparr>startCursor = startCursor t, endCursor = endCursor t,
             prevPage = prevPage t, nextPage = nextPage t,
             hasPrevPage = truthy (prevPage t), hasNextPage = truthy (nextPage t),
             items = pageItems dc limit rows\<rparr>"
    unfolding paginateTry_Inr_iff by blast
  have p: "pageItems dc limit rows =
        (if map_option typeOf dc = Some TPrev then rev (take n rows) else take n rows)"
    by (simp only: pageItems_def n(2) slice0_nat)
  from t have t': "resolvePageTokens (pageItems dc limit rows) sorts cursorCodec dc (n < length rows) = Inr t"
    by (simp only: n(2) lengthGt_nat)
  from n s d t' p r show ?thesis by blast
qed

text \<open>
  Claim C2.  Whenever \<^verbatim>\<open>paginate\<close> returns a page: the limit is a positive integer
  \<open>n\<close>; the decoded cursor has type \<^verbatim>\<open>prev\<close> exactly when the incoming cursor has a
  \<^verbatim>\<open>prevPage\<close> and no \<^verbatim>\<open>nextPage\<close> property; the sorts given to the dialect are the
  inverted sort set for \<^verbatim>\<open>prev\<close> and the sort set itself otherwise; the items are the
  first \<open>n\<close> rows of the executor, reversed for \<^verbatim>\<open>prev\<close> and in fetched order
  otherwise, so at most \<open>n\<close> of them and never the row after the \<open>n\<close>-th.  Inverting
  keeps the columns and output keys and turns an absent or ascending direction into
  descending and descending into ascending.
\<close>

theorem paginate_sorts_and_items:
  assumes "paginate dialect cursorCodec exec query sorts limit incoming = Inr res"
  shows "\<exists>n dc q1 q rows.
      0 < n \<and> limit = Num (of_nat n) \<and>
      decodedCursorOf incoming cursorCodec = Inr dc \<and>
      (map_option typeOf dc = Some TPrev) =
        (\<exists>t off. incoming = Some (CursorIncoming None (Some t) off)) \<and>
      applySort dialect query
        (if map_option typeOf dc = Some TPrev then invertSorts sorts else sorts) = Inr q1 \<and>
      constrainQuery dialect query sorts limit dc = Inr q \<and>
      exec q = Inr rows \<and>
      items res = (if map_option typeOf dc = Some TPrev then rev (take n rows) else take n rows) \<and>
      length (items res) \<le> n \<and>
      length (invertSorts sorts) = length sorts \<and>
      (\<forall>i < length sorts.
         col (invertSorts sorts ! i) = col (sorts ! i) \<and>
         outputKey (invertSorts sorts ! i) = outputKey (sorts ! i) \<and>
         dir (invertSorts sorts ! i) =
           (case dir (sorts ! i) of
              None \<Rightarrow> Some Desc | Some Asc \<Rightarrow> Some Desc | Some Desc \<Rightarrow> Some Asc))"
proof -
  from paginate_InrD [OF assms] obtain n dc q rows and t :: cursorOutgoing where
      n: "0 < n" "limit = Num (of_nat n)"
      and d: "decodedCursorOf incoming cursorCodec = Inr dc"
      and c: "constrainQuery dialect query sorts limit dc = Inr q"
      and e: "exec q = Inr rows"
      and p: "pageItems dc limit rows =
        (if map_option typeOf dc = Some TPrev then rev (take n rows) else take n rows)"
      and r: "res = \<lparr>startCursor = startCursor t, endCursor = endCursor t,
             prevPage = prevPage t, nextPage = nextPage t,
             hasPrevPage = truthy (prevPage t), hasNextPage = truthy (nextPage t),
             items = pageItems dc limit rows\<rparr>"
    by blast
  from c obtain q1 where q1: "applySort dialect query (sortsApplied sorts dc) = Inr q1"
    unfolding constrainQuery_Inr_iff by blast
  then have q1': "applySort dialect query
        (if map_option typeOf dc = Some TPrev then invertSorts sorts else sorts) = Inr q1"
    by (simp only: sortsApplied_def)
  from r p have i: "items res = (if map_option typeOf dc = Some TPrev then rev (take n rows) else take n rows)"
    by simp
  then have l: "length (items res) \<le> n" by simp
  note pv = decodedCursorOf_prev_iff [OF d]
  have inv: "\<forall>i < length sorts.
         col (invertSorts sorts ! i) = col (sorts ! i) \<and>
         outputKey (invertSorts sorts ! i) = outputKey (sorts ! i) \<and>
         dir (invertSorts sorts ! i) =
           (case dir (sorts ! i) of
              None \<Rightarrow> Some Desc | Some Asc \<Rightarrow> Some Desc | Some Desc \<Rightarrow> Some Asc)"
    using invertSorts_nth by blast
  show ?thesis
    apply (intro exI conjI)
              apply (rule n(1))
             apply (rule n(2))
            apply (rule d)
           apply (rule pv)
          apply (rule q1')
         apply (rule c)
        apply (rule e)
       apply (rule i)
      apply (rule l)
     apply (rule length_invertSorts)
    apply (rule inv)
    done
qed

theorem paginate_sorts_and_items_witness:
  "paginate SqlitePaginationDialect idCodec
     (execOn [OrderBy ''users.id'' Desc, Limit (Num 3), Where (Eb ''users.id'' OpLt (JNumber (Num 4)))] [idRow 3, idRow 2, idRow 1]) []
     idSorts (Num 2) (Some (CursorIncoming None (Some ''c4'') None)) =
   Inr \<lparr>startCursor = Some ''c2'', endCursor = Some ''c3'', prevPage = Some ''c2'', nextPage = Some ''c3'', hasPrevPage = True, hasNextPage = True, items = [idRow 2, idRow 3]\<rparr> \<and>
   (\<exists>n dc q1 q rows.
      0 < n \<and> (Num 2) = Num (of_nat n) \<and>
      decodedCursorOf (Some (CursorIncoming None (Some ''c4'') None)) idCodec = Inr dc \<and>
      (map_option typeOf dc = Some TPrev) =
        (\<exists>t off. (Some (CursorIncoming None (Some ''c4'') None)) = Some (CursorIncoming None (Some t) off)) \<and>
      applySort SqlitePaginationDialect []
        (if map_option typeOf dc = Some TPrev then invertSorts idSorts else idSorts) = Inr q1 \<and>
      constrainQuery SqlitePaginationDialect [] idSorts (Num 2) dc = Inr q \<and>
      (execOn [OrderBy ''users.id'' Desc, Limit (Num 3), Where (Eb ''users.id'' OpLt (JNumber (Num 4)))] [idRow 3, idRow 2, idRow 1]) q = Inr rows \<and>
      items \<lparr>startCursor = Some ''c2'', endCursor = Some ''c3'', prevPage = Some ''c2'', nextPage = Some ''c3'', hasPrevPage = True, hasNextPage = True, items = [idRow 2, idRow 3]\<rparr> = (if map_option typeOf dc = Some TPrev then rev (take n rows) else take n rows) \<and>
      length (items \<lparr>startCursor = Some ''c2'', endCursor = Some ''c3'', prevPage = Some ''c2'', nextPage = Some ''c3'', hasPrevPage = True, hasNextPage = True, items = [idRow 2, idRow 3]\<rparr>) \<le> n \<and>
      length (invertSorts idSorts) = length idSorts \<and>
      (\<forall>i < length idSorts.
         col (invertSorts idSorts ! i) = col (idSorts ! i) \<and>
         outputKey (invertSorts idSorts ! i) = outputKey (idSorts ! i) \<and>
         dir (invertSorts idSorts ! i) =
           (case dir (idSorts ! i) of
              None \<Rightarrow> Some Desc | Some Asc \<Rightarrow> Some Desc | Some Desc \<Rightarrow> Some Asc)))"
proof -
  have run: "paginate SqlitePaginationDialect idCodec
     (execOn [OrderBy ''users.id'' Desc, Limit (Num 3), Where (Eb ''users.id'' OpLt (JNumber (Num 4)))] [idRow 3, idRow 2, idRow 1]) []
     idSorts (Num 2) (Some (CursorIncoming None (Some ''c4'') None)) =
   Inr \<lparr>startCursor = Some ''c2'', endCursor = Some ''c3'', prevPage = Some ''c2'', nextPage = Some ''c3'', hasPrevPage = True, hasNextPage = True, items = [idRow 2, idRow 3]\<rparr>"
    by (simp add: run_defs)
  from run paginate_sorts_and_items [OF run] show ?thesis by (rule conjI)
qed

lemma truthy_iff: "truthy x = (\<exists>t. x = Some t \<and> t \<noteq> [])"
  by (cases x) (simp_all add: truthy_def)

lemma decodedCursorOf_offset0_iff:
  "decodedCursorOf incoming cursorCodec = Inr dc \<Longrightarrow>
   (dc = Some (DecodedOffset (Num 0))) = (incoming = Some (CursorIncoming None None (Some (Num 0))))"
proof (cases incoming)
  case None
  assume "decodedCursorOf incoming cursorCodec = Inr dc"
  with None show ?thesis by (simp add: decodedCursorOf_def)
next
  case (Some c)
  assume a: "decodedCursorOf incoming cursorCodec = Inr dc"
  obtain np pp off where c: "c = CursorIncoming np pp off" by (cases c)
  from a Some c show ?thesis
    by (cases np; cases pp; cases off) (auto simp add: decodedCursorOf_def thenDo_Inr_iff)
qed

lemma payloadValue_resolveCursor:
  "payloadValue (resolveCursor item sorts) =
   JObject [(''sig'', JString (sortSignature sorts)),
            (''k'', JObject (fromEntries
               (map (\<lambda>s. (getSortOutput s, getProp item (getSortOutput s))) sorts)))]"
  by (simp add: payloadValue_def resolveCursor_def)

text \<open>
  Claim C3, as amended.  Whenever \<^verbatim>\<open>paginate\<close> returns a page: with no items, all four
  cursors are absent; otherwise \<^verbatim>\<open>startCursor\<close> and \<^verbatim>\<open>endCursor\<close> are the codec's
  encodings of \<^verbatim>\<open>{sig, k}\<close> for the first and the last item, with \<^verbatim>\<open>sig\<close> the signature
  of the sort set and \<^verbatim>\<open>k\<close> the item's values under the output keys;
  \<^verbatim>\<open>nextPage\<close> is \<^verbatim>\<open>endCursor\<close> when the cursor was \<^verbatim>\<open>prev\<close> or more than \<open>limit\<close>
  rows came back, and absent otherwise; \<^verbatim>\<open>prevPage\<close> is \<^verbatim>\<open>startCursor\<close> when (the cursor
  was not \<^verbatim>\<open>prev\<close>, or more than \<open>limit\<close> rows came back) and the page is not the first
  (no cursor, or offset \<open>0\<close>), and absent otherwise; \<^verbatim>\<open>hasNextPage\<close> and
  \<^verbatim>\<open>hasPrevPage\<close> hold exactly when the token is present and not the empty string; a
  call without a cursor has no \<^verbatim>\<open>prevPage\<close>.
\<close>

theorem paginate_page_tokens:
  assumes "paginate dialect cursorCodec exec query sorts limit incoming = Inr res"
  shows "\<exists>n dc q rows.
      0 < n \<and> limit = Num (of_nat n) \<and>
      decodedCursorOf incoming cursorCodec = Inr dc \<and>
      (dc = None) = (incoming = None) \<and>
      (dc = Some (DecodedOffset (Num 0))) =
         (incoming = Some (CursorIncoming None None (Some (Num 0)))) \<and>
      (map_option typeOf dc = Some TPrev) =
         (\<exists>t off. incoming = Some (CursorIncoming None (Some t) off)) \<and>
      constrainQuery dialect query sorts limit dc = Inr q \<and>
      exec q = Inr rows \<and>
      (items res = [] \<longrightarrow>
         startCursor res = None \<and> endCursor res = None \<and>
         nextPage res = None \<and> prevPage res = None) \<and>
      (items res \<noteq> [] \<longrightarrow>
         (\<exists>sc ec.
            encode cursorCodec
              (JObject [(''sig'', JString (sortSignature sorts)),
                        (''k'', JObject (fromEntries
                           (map (\<lambda>s. (getSortOutput s, getProp (hd (items res)) (getSortOutput s)))
                              sorts)))]) = Inr sc \<and>
            encode cursorCodec
              (JObject [(''sig'', JString (sortSignature sorts)),
                        (''k'', JObject (fromEntries
                           (map (\<lambda>s. (getSortOutput s, getProp (last (items res)) (getSortOutput s)))
                              sorts)))]) = Inr ec \<and>
            startCursor res = Some sc \<and> endCursor res = Some ec \<and>
            nextPage res =
              (if map_option typeOf dc = Some TPrev \<or> n < length rows then Some ec else None) \<and>
            prevPage res =
              (if (map_option typeOf dc \<noteq> Some TPrev \<or> n < length rows) \<and>
                  \<not> (dc = None \<or> dc = Some (DecodedOffset (Num 0)))
               then Some sc else None))) \<and>
      hasNextPage res = (\<exists>t. nextPage res = Some t \<and> t \<noteq> []) \<and>
      hasPrevPage res = (\<exists>t. prevPage res = Some t \<and> t \<noteq> []) \<and>
      (incoming = None \<longrightarrow> prevPage res = None \<and> \<not> hasPrevPage res)"
proof -
  from paginate_InrD [OF assms] obtain n dc q rows and t :: cursorOutgoing where
      n: "0 < n" "limit = Num (of_nat n)"
      and d: "decodedCursorOf incoming cursorCodec = Inr dc"
      and c: "constrainQuery dialect query sorts limit dc = Inr q"
      and e: "exec q = Inr rows"
      and t: "resolvePageTokens (pageItems dc limit rows) sorts cursorCodec dc (n < length rows) = Inr t"
      and r: "res = \<lparr>startCursor = startCursor t, endCursor = endCursor t,
             prevPage = prevPage t, nextPage = nextPage t,
             hasPrevPage = truthy (prevPage t), hasNextPage = truthy (nextPage t),
             items = pageItems dc limit rows\<rparr>"
    by blast
  from r have sel: "startCursor res = startCursor t" "endCursor res = endCursor t"
      "prevPage res = prevPage t" "nextPage res = nextPage t"
      "hasPrevPage res = truthy (prevPage t)" "hasNextPage res = truthy (nextPage t)"
      "items res = pageItems dc limit rows"
    by simp_all
  note dn = decodedCursorOf_None_iff [OF d]
  note d0 = decodedCursorOf_offset0_iff [OF d]
  note dp = decodedCursorOf_prev_iff [OF d]
  have emp: "items res = [] \<longrightarrow>
         startCursor res = None \<and> endCursor res = None \<and>
         nextPage res = None \<and> prevPage res = None"
  proof
    assume "items res = []"
    with sel(7) t have "t = \<lparr>startCursor = None, endCursor = None, prevPage = None, nextPage = None\<rparr>"
      by (simp add: resolvePageTokens_Nil)
    with sel show "startCursor res = None \<and> endCursor res = None \<and>
         nextPage res = None \<and> prevPage res = None" by simp
  qed
  have non: "items res \<noteq> [] \<longrightarrow>
         (\<exists>sc ec.
            encode cursorCodec
              (JObject [(''sig'', JString (sortSignature sorts)),
                        (''k'', JObject (fromEntries
                           (map (\<lambda>s. (getSortOutput s, getProp (hd (items res)) (getSortOutput s)))
                              sorts)))]) = Inr sc \<and>
            encode cursorCodec
              (JObject [(''sig'', JString (sortSignature sorts)),
                        (''k'', JObject (fromEntries
                           (map (\<lambda>s. (getSortOutput s, getProp (last (items res)) (getSortOutput s)))
                              sorts)))]) = Inr ec \<and>
            startCursor res = Some sc \<and> endCursor res = Some ec \<and>
            nextPage res =
              (if map_option typeOf dc = Some TPrev \<or> n < length rows then Some ec else None) \<and>
            prevPage res =
              (if (map_option typeOf dc \<noteq> Some TPrev \<or> n < length rows) \<and>
                  \<not> (dc = None \<or> dc = Some (DecodedOffset (Num 0)))
               then Some sc else None))"
  proof
    assume "items res \<noteq> []"
    with sel(7) have ne: "pageItems dc limit rows \<noteq> []" by simp
    from resolvePageTokens_InrD [OF ne t] obtain sc ec where
        sc: "encode cursorCodec (payloadValue (resolveCursor (hd (pageItems dc limit rows)) sorts)) = Inr sc"
        and ec: "encode cursorCodec (payloadValue (resolveCursor (last (pageItems dc limit rows)) sorts)) = Inr ec"
        and tt: "t = \<lparr>startCursor = Some sc, endCursor = Some ec,
           prevPage = (if (map_option typeOf dc \<noteq> Some TPrev \<or> n < length rows) \<and>
                          \<not> (dc = None \<or> dc = Some (DecodedOffset (Num 0)))
                       then Some sc else None),
           nextPage = (if map_option typeOf dc = Some TPrev \<or> n < length rows then Some ec else None)\<rparr>"
      by blast
    from sc ec have
        "encode cursorCodec
              (JObject [(''sig'', JString (sortSignature sorts)),
                        (''k'', JObject (fromEntries
                           (map (\<lambda>s. (getSortOutput s, getProp (hd (items res)) (getSortOutput s)))
                              sorts)))]) = Inr sc"
        "encode cursorCodec
              (JObject [(''sig'', JString (sortSignature sorts)),
                        (''k'', JObject (fromEntries
                           (map (\<lambda>s. (getSortOutput s, getProp (last (items res)) (getSortOutput s)))
                              sorts)))]) = Inr ec"
      by (simp_all only: payloadValue_resolveCursor sel(7))
    moreover from tt sel have "startCursor res = Some sc" "endCursor res = Some ec"
        "nextPage res =
              (if map_option typeOf dc = Some TPrev \<or> n < length rows then Some ec else None)"
        "prevPage res =
              (if (map_option typeOf dc \<noteq> Some TPrev \<or> n < length rows) \<and>
                  \<not> (dc = None \<or> dc = Some (DecodedOffset (Num 0)))
               then Some sc else None)"
      by simp_all
    ultimately show "\<exists>sc ec.
            encode cursorCodec
              (JObject [(''sig'', JString (sortSignature sorts)),
                        (''k'', JObject (fromEntries
                           (map (\<lambda>s. (getSortOutput s, getProp (hd (items res)) (getSortOutput s)))
                              sorts)))]) = Inr sc \<and>
            encode cursorCodec
              (JObject [(''sig'', JString (sortSignature sorts)),
                        (''k'', JObject (fromEntries
                           (map (\<lambda>s. (getSortOutput s, getProp (last (items res)) (getSortOutput s)))
                              sorts)))]) = Inr ec \<and>
            startCursor res = Some sc \<and> endCursor res = Some ec \<and>
            nextPage res =
              (if map_option typeOf dc = Some TPrev \<or> n < length rows then Some ec else None) \<and>
            prevPage res =
              (if (map_option typeOf dc \<noteq> Some TPrev \<or> n < length rows) \<and>
                  \<not> (dc = None \<or> dc = Some (DecodedOffset (Num 0)))
               then Some sc else None)"
      by blast
  qed
  have hn: "hasNextPage res = (\<exists>t. nextPage res = Some t \<and> t \<noteq> [])"
    by (simp only: sel truthy_iff)
  have hp: "hasPrevPage res = (\<exists>t. prevPage res = Some t \<and> t \<noteq> [])"
    by (simp only: sel truthy_iff)
  have fst: "incoming = None \<longrightarrow> prevPage res = None \<and> \<not> hasPrevPage res"
  proof
    assume "incoming = None"
    with dn have dcn: "dc = None" by simp
    have "prevPage res = None"
    proof (cases "items res = []")
      case True
      with emp show ?thesis by simp
    next
      case False
      with non dcn show ?thesis by auto
    qed
    with hp show "prevPage res = None \<and> \<not> hasPrevPage res" by simp
  qed
  show ?thesis
    apply (intro exI conjI)
               apply (rule n(1))
              apply (rule n(2))
             apply (rule d)
            apply (rule dn)
           apply (rule d0)
          apply (rule dp)
         apply (rule c)
        apply (rule e)
       apply (rule emp)
      apply (rule non)
     apply (rule hn)
    apply (rule hp)
    apply (rule fst)
    done
qed

theorem paginate_page_tokens_witness:
  "paginate SqlitePaginationDialect idCodec
     (execOn [OrderBy ''users.id'' Asc, Limit (Num 3), Where (Eb ''users.id'' OpGt (JNumber (Num 2)))] [idRow 3, idRow 4]) []
     idSorts (Num 2) (Some (CursorIncoming (Some ''c2'') None None)) =
   Inr \<lparr>startCursor = Some ''c3'', endCursor = Some ''c4'', prevPage = Some ''c3'', nextPage = None, hasPrevPage = True, hasNextPage = False, items = [idRow 3, idRow 4]\<rparr> \<and>
   (\<exists>n dc q rows.
      0 < n \<and> (Num 2) = Num (of_nat n) \<and>
      decodedCursorOf (Some (CursorIncoming (Some ''c2'') None None)) idCodec = Inr dc \<and>
      (dc = None) = ((Some (CursorIncoming (Some ''c2'') None None)) = None) \<and>
      (dc = Some (DecodedOffset (Num 0))) =
         ((Some (CursorIncoming (Some ''c2'') None None)) = Some (CursorIncoming None None (Some (Num 0)))) \<and>
      (map_option typeOf dc = Some TPrev) =
         (\<exists>t off. (Some (CursorIncoming (Some ''c2'') None None)) = Some (CursorIncoming None (Some t) off)) \<and>
      constrainQuery SqlitePaginationDialect [] idSorts (Num 2) dc = Inr q \<and>
      (execOn [OrderBy ''users.id'' Asc, Limit (Num 3), Where (Eb ''users.id'' OpGt (JNumber (Num 2)))] [idRow 3, idRow 4]) q = Inr rows \<and>
      (items \<lparr>startCursor = Some ''c3'', endCursor = Some ''c4'', prevPage = Some ''c3'', nextPage = None, hasPrevPage = True, hasNextPage = False, items = [idRow 3, idRow 4]\<rparr> = [] \<longrightarrow>
         startCursor \<lparr>startCursor = Some ''c3'', endCursor = Some ''c4'', prevPage = Some ''c3'', nextPage = None, hasPrevPage = True, hasNextPage = False, items = [idRow 3, idRow 4]\<rparr> = None \<and> endCursor \<lparr>startCursor = Some ''c3'', endCursor = Some ''c4'', prevPage = Some ''c3'', nextPage = None, hasPrevPage = True, hasNextPage = False, items = [idRow 3, idRow 4]\<rparr> = None \<and>
         nextPage \<lparr>startCursor = Some ''c3'', endCursor = Some ''c4'', prevPage = Some ''c3'', nextPage = None, hasPrevPage = True, hasNextPage = False, items = [idRow 3, idRow 4]\<rparr> = None \<and> prevPage \<lparr>startCursor = Some ''c3'', endCursor = Some ''c4'', prevPage = Some ''c3'', nextPage = None, hasPrevPage = True, hasNextPage = False, items = [idRow 3, idRow 4]\<rparr> = None) \<and>
      (items \<lparr>startCursor = Some ''c3'', endCursor = Some ''c4'', prevPage = Some ''c3'', nextPage = None, hasPrevPage = True, hasNextPage = False, items = [idRow 3, idRow 4]\<rparr> \<noteq> [] \<longrightarrow>
         (\<exists>sc ec.
            encode idCodec
              (JObject [(''sig'', JString (sortSignature idSorts)),
                        (''k'', JObject (fromEntries
                           (map (\<lambda>s. (getSortOutput s, getProp (hd (items \<lparr>startCursor = Some ''c3'', endCursor = Some ''c4'', prevPage = Some ''c3'', nextPage = None, hasPrevPage = True, hasNextPage = False, items = [idRow 3, idRow 4]\<rparr>)) (getSortOutput s)))
                              idSorts)))]) = Inr sc \<and>
            encode idCodec
              (JObject [(''sig'', JString (sortSignature idSorts)),
                        (''k'', JObject (fromEntries
                           (map (\<lambda>s. (getSortOutput s, getProp (last (items \<lparr>startCursor = Some ''c3'', endCursor = Some ''c4'', prevPage = Some ''c3'', nextPage = None, hasPrevPage = True, hasNextPage = False, items = [idRow 3, idRow 4]\<rparr>)) (getSortOutput s)))
                              idSorts)))]) = Inr ec \<and>
            startCursor \<lparr>startCursor = Some ''c3'', endCursor = Some ''c4'', prevPage = Some ''c3'', nextPage = None, hasPrevPage = True, hasNextPage = False, items = [idRow 3, idRow 4]\<rparr> = Some sc \<and> endCursor \<lparr>startCursor = Some ''c3'', endCursor = Some ''c4'', prevPage = Some ''c3'', nextPage = None, hasPrevPage = True, hasNextPage = False, items = [idRow 3, idRow 4]\<rparr> = Some ec \<and>
            nextPage \<lparr>startCursor = Some ''c3'', endCursor = Some ''c4'', prevPage = Some ''c3'', nextPage = None, hasPrevPage = True, hasNextPage = False, items = [idRow 3, idRow 4]\<rparr> =
              (if map_option typeOf dc = Some TPrev \<or> n < length rows then Some ec else None) \<and>
            prevPage \<lparr>startCursor = Some ''c3'', endCursor = Some ''c4'', prevPage = Some ''c3'', nextPage = None, hasPrevPage = True, hasNextPage = False, items = [idRow 3, idRow 4]\<rparr> =
              (if (map_option typeOf dc \<noteq> Some TPrev \<or> n < length rows) \<and>
                  \<not> (dc = None \<or> dc = Some (DecodedOffset (Num 0)))
               then Some sc else None))) \<and>
      hasNextPage \<lparr>startCursor = Some ''c3'', endCursor = Some ''c4'', prevPage = Some ''c3'', nextPage = None, hasPrevPage = True, hasNextPage = False, items = [idRow 3, idRow 4]\<rparr> = (\<exists>t. nextPage \<lparr>startCursor = Some ''c3'', endCursor = Some ''c4'', prevPage = Some ''c3'', nextPage = None, hasPrevPage = True, hasNextPage = False, items = [idRow 3, idRow 4]\<rparr> = Some t \<and> t \<noteq> []) \<and>
      hasPrevPage \<lparr>startCursor = Some ''c3'', endCursor = Some ''c4'', prevPage = Some ''c3'', nextPage = None, hasPrevPage = True, hasNextPage = False, items = [idRow 3, idRow 4]\<rparr> = (\<exists>t. prevPage \<lparr>startCursor = Some ''c3'', endCursor = Some ''c4'', prevPage = Some ''c3'', nextPage = None, hasPrevPage = True, hasNextPage = False, items = [idRow 3, idRow 4]\<rparr> = Some t \<and> t \<noteq> []) \<and>
      ((Some (CursorIncoming (Some ''c2'') None None)) = None \<longrightarrow> prevPage \<lparr>startCursor = Some ''c3'', endCursor = Some ''c4'', prevPage = Some ''c3'', nextPage = None, hasPrevPage = True, hasNextPage = False, items = [idRow 3, idRow 4]\<rparr> = None \<and> \<not> hasPrevPage \<lparr>startCursor = Some ''c3'', endCursor = Some ''c4'', prevPage = Some ''c3'', nextPage = None, hasPrevPage = True, hasNextPage = False, items = [idRow 3, idRow 4]\<rparr>))"
proof -
  have run: "paginate SqlitePaginationDialect idCodec
     (execOn [OrderBy ''users.id'' Asc, Limit (Num 3), Where (Eb ''users.id'' OpGt (JNumber (Num 2)))] [idRow 3, idRow 4]) []
     idSorts (Num 2) (Some (CursorIncoming (Some ''c2'') None None)) =
   Inr \<lparr>startCursor = Some ''c3'', endCursor = Some ''c4'', prevPage = Some ''c3'', nextPage = None, hasPrevPage = True, hasNextPage = False, items = [idRow 3, idRow 4]\<rparr>"
    by (simp add: run_defs)
  from run paginate_page_tokens [OF run] show ?thesis by (rule conjI)
qed

text \<open>
  The claim as stated (\<^verbatim>\<open>hasNextPage\<close> exactly when \<^verbatim>\<open>nextPage\<close> is present) fails for
  a codec that encodes to the empty string: \<^verbatim>\<open>!!""\<close> is false.
\<close>

theorem paginate_page_tokens_counterexample:
  "\<exists>res. paginate SqlitePaginationDialect emptyTokenCodec
       (execOn [OrderBy ''users.id'' Asc, Limit (Num 3)] [idRow 1, idRow 2, idRow 3]) []
       idSorts (Num 2) None = Inr res \<and>
     items res = [idRow 1, idRow 2] \<and>
     endCursor res = Some '''' \<and> nextPage res = Some '''' \<and> \<not> hasNextPage res"
  by (simp add: run_defs emptyTokenCodec_def)

lemma isInteger_Num: "isInteger (Num q) = (q \<in> \<int>)"
  by (auto simp add: Ints_def)

lemma positive_integer_rat:
  "(\<exists>n. 0 < n \<and> limit = Num (of_nat n)) = (\<exists>q. limit = Num q \<and> 0 < q \<and> q \<in> \<int>)"
proof -
  have "(\<exists>n. 0 < n \<and> limit = Num (of_nat n)) = (isInteger limit \<and> gtZero limit)"
    by (simp only: positive_integer_iff)
  also have "\<dots> = (\<exists>q. limit = Num q \<and> 0 < q \<and> q \<in> \<int>)"
    by (cases limit) (auto simp add: Ints_def)
  finally show ?thesis .
qed

lemma assertLimitSorts_limit:
  "\<not> (\<exists>n. 0 < n \<and> limit = Num (of_nat n)) \<Longrightarrow>
   assertLimitSorts limit sorts = Inl (PaginationError ''Invalid page size limit'' INVALID_LIMIT None)"
  unfolding positive_integer_iff [symmetric] by (simp add: assertLimitSorts_def)

lemma assertLimitSorts_sorts:
  "\<exists>n. 0 < n \<and> limit = Num (of_nat n) \<Longrightarrow> sorts = [] \<Longrightarrow>
   assertLimitSorts limit sorts =
     Inl (PaginationError ''Cannot paginate without sorting'' INVALID_SORT None)"
  unfolding positive_integer_iff [symmetric] by (simp add: assertLimitSorts_def)

lemma assertLimitSorts_ok:
  "\<exists>n. 0 < n \<and> limit = Num (of_nat n) \<Longrightarrow> sorts \<noteq> [] \<Longrightarrow> assertLimitSorts limit sorts = Inr ()"
  by (simp add: assertLimitSorts_Inr_iff)

lemma paginate_assert_fail:
  "assertLimitSorts limit sorts = Inl e \<Longrightarrow>
   paginate dialect cursorCodec exec query sorts limit incoming = Inl e"
  by (simp add: paginate_def thenDo_simps)

lemma paginate_valid:
  "assertLimitSorts limit sorts = Inr () \<Longrightarrow>
   paginate dialect cursorCodec exec query sorts limit incoming =
     catchWrap ''Failed to paginate'' (paginateTry dialect cursorCodec exec query sorts limit incoming)"
  by (simp add: paginate_def thenDo_simps)

lemma paginateWithEdges_fail:
  "paginate dialect cursorCodec exec query sorts limit incoming = Inl e \<Longrightarrow>
   paginateWithEdges dialect cursorCodec exec query sorts limit incoming = Inl e"
  by (simp add: paginateWithEdges_def thenDo_simps)

lemma paginateWithEdges_edges_fail:
  "paginate dialect cursorCodec exec query sorts limit incoming = Inr r \<Longrightarrow>
   resolveEdges (items r) sorts cursorCodec = Inl e \<Longrightarrow>
   paginateWithEdges dialect cursorCodec exec query sorts limit incoming =
     Inl (if isPaginationError e then e
          else PaginationError ''Failed to generate edges'' UNEXPECTED_ERROR (Some e))"
  by (simp add: paginateWithEdges_def thenDo_simps catchWrap_def)

lemma isPaginationError_code:
  "isPaginationError e \<Longrightarrow>
   \<exists>c. codeOf e = Some c \<and> c \<in> {INVALID_TOKEN, INVALID_SORT, INVALID_LIMIT, UNEXPECTED_ERROR}"
proof (cases e)
  case (PaginationError m c x)
  then show ?thesis by (cases c) simp_all
next
  case (Thrown x)
  assume "isPaginationError e"
  with Thrown show ?thesis by simp
qed

lemma catchWrap_isPaginationError:
  "catchWrap msg r = Inl e \<Longrightarrow> isPaginationError e"
  by (auto simp add: catchWrap_Inl_iff)

lemma paginate_fail_isPaginationError:
  assumes "paginate dialect cursorCodec exec query sorts limit incoming = Inl e"
  shows "isPaginationError e"
proof (cases "assertLimitSorts limit sorts")
  case (Inl a)
  with assms have "e = a" by (simp add: paginate_assert_fail)
  with Inl show ?thesis by (auto simp add: assertLimitSorts_def split: if_splits)
next
  case (Inr u)
  with assms show ?thesis
    by (auto simp add: paginate_def thenDo_simps dest: catchWrap_isPaginationError)
qed

lemma paginateWithEdges_fail_isPaginationError:
  assumes "paginateWithEdges dialect cursorCodec exec query sorts limit incoming = Inl e"
  shows "isPaginationError e"
proof (cases "paginate dialect cursorCodec exec query sorts limit incoming")
  case (Inl a)
  with assms have "e = a" by (simp add: paginateWithEdges_fail)
  with Inl show ?thesis by (simp add: paginate_fail_isPaginationError)
next
  case (Inr r)
  with assms show ?thesis
    by (auto simp add: paginateWithEdges_def thenDo_simps dest: catchWrap_isPaginationError)
qed

lemma paginateTry_exec_fail:
  "decodedCursorOf incoming cursorCodec = Inr dc \<Longrightarrow>
   constrainQuery dialect query sorts limit dc = Inr q \<Longrightarrow>
   exec q = Inl e \<Longrightarrow>
   paginateTry dialect cursorCodec exec query sorts limit incoming = Inl e"
  by (simp add: paginateTry_def thenDo_simps)

text \<open>
  Claim C7.  A limit that is not a finite positive integer makes \<^verbatim>\<open>paginate\<close> and
  \<^verbatim>\<open>paginateWithEdges\<close> fail with \<^verbatim>\<open>INVALID_LIMIT\<close>, and an empty sort set (under a
  valid limit) with \<^verbatim>\<open>INVALID_SORT\<close>, whatever the cursor, codec, dialect and executor
  are.  Under valid arguments a result of the \<^verbatim>\<open>try\<close> block is returned as it is, a
  failure of it that is a \<^verbatim>\<open>PaginationError\<close> passes through unchanged, and any other
  failure (for one, a failure of the query execution) comes out as an
  \<^verbatim>\<open>UNEXPECTED_ERROR\<close> whose cause is that failure.  \<^verbatim>\<open>paginateWithEdges\<close> passes the
  failures of \<^verbatim>\<open>paginate\<close> on and treats a failure of the edge cursors the same way.
  Every failure of either function is a \<^verbatim>\<open>PaginationError\<close> with one of the four codes.
\<close>

theorem paginate_error_surface:
  fixes dialect :: "'q paginationDialect" and cursorCodec :: "(jsvalue, string) codec"
    and exec :: "'q \<Rightarrow> failure + object list" and query :: 'q
    and sorts :: "sortItem list" and limit :: number and incoming :: "cursorIncoming option"
  defines "P \<equiv> paginate dialect cursorCodec exec query sorts limit incoming"
  defines "E \<equiv> paginateWithEdges dialect cursorCodec exec query sorts limit incoming"
  defines "T \<equiv> paginateTry dialect cursorCodec exec query sorts limit incoming"
  shows
    "((\<forall>q. limit = Num q \<longrightarrow> q \<le> 0 \<or> q \<notin> \<int>) \<longrightarrow>
        P = Inl (PaginationError ''Invalid page size limit'' INVALID_LIMIT None) \<and>
        E = Inl (PaginationError ''Invalid page size limit'' INVALID_LIMIT None)) \<and>
     ((\<exists>q. limit = Num q \<and> 0 < q \<and> q \<in> \<int>) \<and> sorts = [] \<longrightarrow>
        P = Inl (PaginationError ''Cannot paginate without sorting'' INVALID_SORT None) \<and>
        E = Inl (PaginationError ''Cannot paginate without sorting'' INVALID_SORT None)) \<and>
     ((\<exists>q. limit = Num q \<and> 0 < q \<and> q \<in> \<int>) \<and> sorts \<noteq> [] \<longrightarrow>
        (\<forall>r. T = Inr r \<longrightarrow> P = Inr r) \<and>
        (\<forall>e. T = Inl e \<and> isPaginationError e \<longrightarrow> P = Inl e) \<and>
        (\<forall>e. T = Inl e \<and> \<not> isPaginationError e \<longrightarrow>
             P = Inl (PaginationError ''Failed to paginate'' UNEXPECTED_ERROR (Some e))) \<and>
        (\<forall>dc q e. decodedCursorOf incoming cursorCodec = Inr dc \<and>
             constrainQuery dialect query sorts limit dc = Inr q \<and> exec q = Inl e \<longrightarrow> T = Inl e)) \<and>
     (\<forall>e. P = Inl e \<longrightarrow> E = Inl e) \<and>
     (\<forall>r e. P = Inr r \<and> resolveEdges (items r) sorts cursorCodec = Inl e \<and> isPaginationError e \<longrightarrow>
          E = Inl e) \<and>
     (\<forall>r e. P = Inr r \<and> resolveEdges (items r) sorts cursorCodec = Inl e \<and> \<not> isPaginationError e \<longrightarrow>
          E = Inl (PaginationError ''Failed to generate edges'' UNEXPECTED_ERROR (Some e))) \<and>
     (\<forall>e. P = Inl e \<or> E = Inl e \<longrightarrow>
          isPaginationError e \<and>
          (\<exists>c. codeOf e = Some c \<and>
               c \<in> {INVALID_TOKEN, INVALID_SORT, INVALID_LIMIT, UNEXPECTED_ERROR}))"
proof -
  have bad: "(\<forall>q. limit = Num q \<longrightarrow> q \<le> 0 \<or> q \<notin> \<int>) = (\<not> (\<exists>n. 0 < n \<and> limit = Num (of_nat n)))"
    unfolding positive_integer_rat by auto
  have c1: "(\<forall>q. limit = Num q \<longrightarrow> q \<le> 0 \<or> q \<notin> \<int>) \<longrightarrow>
        P = Inl (PaginationError ''Invalid page size limit'' INVALID_LIMIT None) \<and>
        E = Inl (PaginationError ''Invalid page size limit'' INVALID_LIMIT None)"
  proof
    assume "\<forall>q. limit = Num q \<longrightarrow> q \<le> 0 \<or> q \<notin> \<int>"
    with bad have "\<not> (\<exists>n. 0 < n \<and> limit = Num (of_nat n))" by simp
    then have a: "assertLimitSorts limit sorts =
        Inl (PaginationError ''Invalid page size limit'' INVALID_LIMIT None)"
      by (rule assertLimitSorts_limit)
    show "P = Inl (PaginationError ''Invalid page size limit'' INVALID_LIMIT None) \<and>
        E = Inl (PaginationError ''Invalid page size limit'' INVALID_LIMIT None)"
      unfolding P_def E_def using a by (simp add: paginate_assert_fail paginateWithEdges_fail)
  qed
  have c2: "(\<exists>q. limit = Num q \<and> 0 < q \<and> q \<in> \<int>) \<and> sorts = [] \<longrightarrow>
        P = Inl (PaginationError ''Cannot paginate without sorting'' INVALID_SORT None) \<and>
        E = Inl (PaginationError ''Cannot paginate without sorting'' INVALID_SORT None)"
  proof
    assume h: "(\<exists>q. limit = Num q \<and> 0 < q \<and> q \<in> \<int>) \<and> sorts = []"
    then have "\<exists>n. 0 < n \<and> limit = Num (of_nat n)" by (simp only: positive_integer_rat)
    with h have a: "assertLimitSorts limit sorts =
        Inl (PaginationError ''Cannot paginate without sorting'' INVALID_SORT None)"
      by (simp add: assertLimitSorts_sorts)
    show "P = Inl (PaginationError ''Cannot paginate without sorting'' INVALID_SORT None) \<and>
        E = Inl (PaginationError ''Cannot paginate without sorting'' INVALID_SORT None)"
      unfolding P_def E_def using a by (simp add: paginate_assert_fail paginateWithEdges_fail)
  qed
  have c3: "(\<exists>q. limit = Num q \<and> 0 < q \<and> q \<in> \<int>) \<and> sorts \<noteq> [] \<longrightarrow>
        (\<forall>r. T = Inr r \<longrightarrow> P = Inr r) \<and>
        (\<forall>e. T = Inl e \<and> isPaginationError e \<longrightarrow> P = Inl e) \<and>
        (\<forall>e. T = Inl e \<and> \<not> isPaginationError e \<longrightarrow>
             P = Inl (PaginationError ''Failed to paginate'' UNEXPECTED_ERROR (Some e))) \<and>
        (\<forall>dc q e. decodedCursorOf incoming cursorCodec = Inr dc \<and>
             constrainQuery dialect query sorts limit dc = Inr q \<and> exec q = Inl e \<longrightarrow> T = Inl e)"
  proof
    assume h: "(\<exists>q. limit = Num q \<and> 0 < q \<and> q \<in> \<int>) \<and> sorts \<noteq> []"
    then have "\<exists>n. 0 < n \<and> limit = Num (of_nat n)" by (simp only: positive_integer_rat)
    with h have a: "assertLimitSorts limit sorts = Inr ()"
      by (simp add: assertLimitSorts_ok)
    have p: "P = catchWrap ''Failed to paginate'' T"
      unfolding P_def T_def by (rule paginate_valid [OF a])
    show "(\<forall>r. T = Inr r \<longrightarrow> P = Inr r) \<and>
        (\<forall>e. T = Inl e \<and> isPaginationError e \<longrightarrow> P = Inl e) \<and>
        (\<forall>e. T = Inl e \<and> \<not> isPaginationError e \<longrightarrow>
             P = Inl (PaginationError ''Failed to paginate'' UNEXPECTED_ERROR (Some e))) \<and>
        (\<forall>dc q e. decodedCursorOf incoming cursorCodec = Inr dc \<and>
             constrainQuery dialect query sorts limit dc = Inr q \<and> exec q = Inl e \<longrightarrow> T = Inl e)"
      unfolding p by (auto simp add: catchWrap_def T_def paginateTry_exec_fail)
  qed
  have c4: "\<forall>e. P = Inl e \<longrightarrow> E = Inl e"
    unfolding P_def E_def by (simp add: paginateWithEdges_fail)
  have c5: "\<forall>r e. P = Inr r \<and> resolveEdges (items r) sorts cursorCodec = Inl e \<and> isPaginationError e \<longrightarrow>
          E = Inl e"
    unfolding P_def E_def by (simp add: paginateWithEdges_edges_fail)
  have c6: "\<forall>r e. P = Inr r \<and> resolveEdges (items r) sorts cursorCodec = Inl e \<and> \<not> isPaginationError e \<longrightarrow>
          E = Inl (PaginationError ''Failed to generate edges'' UNEXPECTED_ERROR (Some e))"
    unfolding P_def E_def by (simp add: paginateWithEdges_edges_fail)
  have c7: "\<forall>e. P = Inl e \<or> E = Inl e \<longrightarrow>
          isPaginationError e \<and>
          (\<exists>c. codeOf e = Some c \<and>
               c \<in> {INVALID_TOKEN, INVALID_SORT, INVALID_LIMIT, UNEXPECTED_ERROR})"
  proof (intro allI impI)
    fix e
    assume "P = Inl e \<or> E = Inl e"
    then have "isPaginationError e"
    proof
      assume "P = Inl e"
      then show ?thesis unfolding P_def by (rule paginate_fail_isPaginationError)
    next
      assume "E = Inl e"
      then show ?thesis unfolding E_def by (rule paginateWithEdges_fail_isPaginationError)
    qed
    then show "isPaginationError e \<and>
          (\<exists>c. codeOf e = Some c \<and>
               c \<in> {INVALID_TOKEN, INVALID_SORT, INVALID_LIMIT, UNEXPECTED_ERROR})"
      using isPaginationError_code [of e] by simp
  qed
  show ?thesis
    apply (intro conjI)
          apply (rule c1)
         apply (rule c2)
        apply (rule c3)
       apply (rule c4)
      apply (rule c5)
     apply (rule c6)
    apply (rule c7)
    done
qed

theorem paginate_error_surface_witness:
  "paginate SqlitePaginationDialect idCodec (execOn [] []) [] idSorts (Num 0) None =
     Inl (PaginationError ''Invalid page size limit'' INVALID_LIMIT None) \<and>
   paginateWithEdges SqlitePaginationDialect idCodec (execOn [] []) [] idSorts (Num 0) None =
     Inl (PaginationError ''Invalid page size limit'' INVALID_LIMIT None) \<and>
   paginate SqlitePaginationDialect idCodec (execOn [] []) [] idSorts (Num 2) None =
     Inl (PaginationError ''Failed to paginate'' UNEXPECTED_ERROR (Some (Thrown ''another query'')))"
proof -
  have h: "\<forall>q. Num 0 = Num q \<longrightarrow> q \<le> 0 \<or> q \<notin> \<int>" by simp
  note a = paginate_error_surface [where dialect = SqlitePaginationDialect and cursorCodec = idCodec
      and exec = "execOn [] []" and query = "[]" and sorts = idSorts and limit = "Num 0"
      and incoming = None, THEN conjunct1, THEN mp, OF h]
  have v: "(\<exists>q. Num 2 = Num q \<and> 0 < q \<and> q \<in> \<int>) \<and> idSorts \<noteq> []"
    by (simp add: idSorts_def)
  have t: "paginateTry SqlitePaginationDialect idCodec (execOn [] []) [] idSorts (Num 2) None =
      Inl (Thrown ''another query'') \<and> \<not> isPaginationError (Thrown ''another query'')"
    by (simp add: run_defs)
  note b = paginate_error_surface [where dialect = SqlitePaginationDialect and cursorCodec = idCodec
      and exec = "execOn [] []" and query = "[]" and sorts = idSorts and limit = "Num 2"
      and incoming = None, THEN conjunct2, THEN conjunct2, THEN conjunct1, THEN mp, OF v,
      THEN conjunct2, THEN conjunct2, THEN conjunct1, THEN spec, THEN mp, OF t]
  from a b show ?thesis by simp
qed

text \<open>
  Claim C10.  A cursor object with none of the properties \<^verbatim>\<open>nextPage\<close>,
  \<^verbatim>\<open>prevPage\<close>, \<^verbatim>\<open>offset\<close> makes \<^verbatim>\<open>decodeCursor\<close>, and \<^verbatim>\<open>paginate\<close> under a
  valid limit and sort set, fail with \<^verbatim>\<open>INVALID_TOKEN\<close>.  With \<^verbatim>\<open>nextPage\<close> present
  the cursor is read as \<^verbatim>\<open>next\<close> whatever else it holds; with \<^verbatim>\<open>prevPage\<close> and no
  \<^verbatim>\<open>nextPage\<close> as \<^verbatim>\<open>prev\<close>, whether or not it holds an offset; an offset is used only
  when it is the sole property.
\<close>

theorem decodeCursor_precedence:
  "decodeCursor (CursorIncoming None None None) cursorCodec =
     Inl (PaginationError ''Invalid cursor'' INVALID_TOKEN None) \<and>
   ((\<exists>q. limit = Num q \<and> 0 < q \<and> q \<in> \<int>) \<and> sorts \<noteq> [] \<longrightarrow>
      paginate dialect cursorCodec exec query sorts limit (Some (CursorIncoming None None None)) =
        Inl (PaginationError ''Invalid cursor'' INVALID_TOKEN None)) \<and>
   decodeCursor (CursorIncoming (Some t) pp off) cursorCodec =
     thenDo (decodeCursorPayload t cursorCodec) (\<lambda>p. Inr (DecodedNext p)) \<and>
   decodeCursor (CursorIncoming None (Some t) off) cursorCodec =
     thenDo (decodeCursorPayload t cursorCodec) (\<lambda>p. Inr (DecodedPrev p)) \<and>
   decodeCursor (CursorIncoming None None (Some n)) cursorCodec = Inr (DecodedOffset n) \<and>
   (\<forall>d. decodeCursor (CursorIncoming (Some t) pp off) cursorCodec = Inr d \<longrightarrow> typeOf d = TNext) \<and>
   (\<forall>d. decodeCursor (CursorIncoming None (Some t) off) cursorCodec = Inr d \<longrightarrow> typeOf d = TPrev)"
proof -
  have p: "(\<exists>q. limit = Num q \<and> 0 < q \<and> q \<in> \<int>) \<and> sorts \<noteq> [] \<longrightarrow>
      paginate dialect cursorCodec exec query sorts limit (Some (CursorIncoming None None None)) =
        Inl (PaginationError ''Invalid cursor'' INVALID_TOKEN None)"
  proof
    assume h: "(\<exists>q. limit = Num q \<and> 0 < q \<and> q \<in> \<int>) \<and> sorts \<noteq> []"
    then have "\<exists>n. 0 < n \<and> limit = Num (of_nat n)" by (simp only: positive_integer_rat)
    with h have a: "assertLimitSorts limit sorts = Inr ()"
      by (simp add: assertLimitSorts_ok)
    show "paginate dialect cursorCodec exec query sorts limit (Some (CursorIncoming None None None)) =
        Inl (PaginationError ''Invalid cursor'' INVALID_TOKEN None)"
      by (simp add: paginate_valid [OF a] paginateTry_def decodedCursorOf_def thenDo_simps catchWrap_def)
  qed
  show ?thesis
    apply (intro conjI)
          apply simp
         apply (rule p)
        apply simp
       apply simp
      apply simp
     apply (auto simp add: thenDo_Inr_iff)
    done
qed

theorem decodeCursor_precedence_witness:
  "paginate SqlitePaginationDialect idCodec (execOn [] []) [] idSorts (Num 2)
     (Some (CursorIncoming None None None)) =
   Inl (PaginationError ''Invalid cursor'' INVALID_TOKEN None) \<and>
   decodeCursor (CursorIncoming (Some ''c1'') (Some ''c2'') (Some (Num 5))) idCodec =
   Inr (DecodedNext (resolveCursor (idRow 1) idSorts)) \<and>
   decodeCursor (CursorIncoming None (Some ''c2'') (Some (Num 5))) idCodec =
   Inr (DecodedPrev (resolveCursor (idRow 2) idSorts))"
proof -
  have v: "(\<exists>q. Num 2 = Num q \<and> 0 < q \<and> q \<in> \<int>) \<and> idSorts \<noteq> []"
    by (simp add: idSorts_def)
  note a = decodeCursor_precedence [where dialect = SqlitePaginationDialect and cursorCodec = idCodec
      and exec = "execOn [] []" and query = "[]" and sorts = idSorts and limit = "Num 2",
      THEN conjunct2, THEN conjunct1, THEN mp, OF v]
  have b: "decodeCursor (CursorIncoming (Some ''c1'') (Some ''c2'') (Some (Num 5))) idCodec =
      Inr (DecodedNext (resolveCursor (idRow 1) idSorts))"
    by (simp add: decodeCursorPayload_def thenDo_def idCodec_def tableCodec_def payloadValue_def
        CursorPayloadSchema_parse_def resolveCursor_def)
  have c: "decodeCursor (CursorIncoming None (Some ''c2'') (Some (Num 5))) idCodec =
      Inr (DecodedPrev (resolveCursor (idRow 2) idSorts))"
    by (simp add: decodeCursorPayload_def thenDo_def idCodec_def tableCodec_def payloadValue_def
        CursorPayloadSchema_parse_def resolveCursor_def)
  from a b c show ?thesis by simp
qed

section \<open>Properties of the sort signature\<close>

lemma length_sha_round: "length (sha_round st kt wt) = length st"
  by (cases "(st, kt, wt)" rule: sha_round.cases) (simp_all add: Let_def)

lemma length_rounds: "length (rounds ks ws st) = length st"
  by (induction ks ws st rule: rounds.induct) (simp_all add: length_sha_round)

lemma length_compress: "length (compress hs block) = length hs"
  by (simp add: compress_def length_rounds)

lemma length_foldl_compress: "length (foldl compress hs bs) = length hs"
  by (induction bs arbitrary: hs) (simp_all add: length_compress)

lemma length_sha256: "length (sha256 m) = 8"
  by (simp add: sha256_def length_foldl_compress H256_def)

lemma length_hex32: "length (hex32 w) = 8"
  by (simp add: hex32_def)

lemma hexdigit_in: "n < 16 \<Longrightarrow> hexdigit n \<in> set ''0123456789abcdef''"
  unfolding hexdigit_def by (rule nth_mem) simp

lemma set_hex32: "set (hex32 w) \<subseteq> set ''0123456789abcdef''"
proof -
  have "\<And>i. hexdigit (w div 16 ^ i mod 16) \<in> set ''0123456789abcdef''"
    by (rule hexdigit_in) simp
  then show ?thesis unfolding hex32_def set_map by (intro image_subsetI)
qed

lemma length_concat_hex32: "length (concat (map hex32 ws)) = 8 * length ws"
  by (induction ws) (simp_all add: length_hex32)

lemma length_sha256_hex: "length (sha256_hex s) = 64"
  by (simp add: sha256_hex_def length_concat_hex32 length_sha256)

lemma set_sha256_hex: "set (sha256_hex s) \<subseteq> set ''0123456789abcdef''"
proof
  fix c assume "c \<in> set (sha256_hex s)"
  then obtain w where "c \<in> set (hex32 w)" unfolding sha256_hex_def by auto
  with set_hex32 show "c \<in> set ''0123456789abcdef''" by (rule subsetD)
qed

lemma length_sortSignature: "length (sortSignature sorts) = 8"
  by (simp add: sortSignature_def length_sha256_hex)

lemma set_sortSignature: "set (sortSignature sorts) \<subseteq> set ''0123456789abcdef''"
proof -
  have "set (sortSignature sorts) \<subseteq> set (sha256_hex (sigText sorts))"
    unfolding sortSignature_def by (rule set_take_subset)
  with set_sha256_hex show ?thesis by blast
qed

lemma replicate_numeral_Cons: "replicate (numeral n) x = x # replicate (pred_numeral n) x"
  by (simp add: numeral_eq_Suc)

lemmas sha_defs = sha256_hex_def sha256_def pad_def compress_def K256_def H256_def hex32_def
  hexdigit_def utf8Bytes_def Ch_def Maj_def bsig0_def bsig1_def ssig0_def ssig1_def rotr_def w32_def
  replicate_numeral_Cons

lemma sha256_hex_users_id_asc: "take 8 (sha256_hex ''users.id:asc'') = ''665e4d37''"
  by (simp add: sha_defs)

lemma sha256_hex_id_asc: "take 8 (sha256_hex ''id:asc'') = ''cd2f9088''"
  by (simp add: sha_defs)

text \<open>
  Claim C4, as amended.  The signature is a string of 8 lower-case hexadecimal digits, and a
  function of the sequence of pairs (signature key, effective direction), where the
  signature key of an item is its \<^verbatim>\<open>output\<close> property or, for an item without one, its
  whole \<^verbatim>\<open>col\<close> string with any table qualifier, and an absent direction counts as
  ascending: two sort sets of the same length with pairwise equal signature keys and
  effective directions have the same signature.
\<close>

theorem sortSignature_deterministic:
  "length (sortSignature sorts) = 8 \<and>
   set (sortSignature sorts) \<subseteq> set ''0123456789abcdef'' \<and>
   (length sorts = length sorts' \<and>
    (\<forall>i < length sorts.
       (case outputKey (sorts ! i) of Some out \<Rightarrow> out | None \<Rightarrow> col (sorts ! i)) =
       (case outputKey (sorts' ! i) of Some out \<Rightarrow> out | None \<Rightarrow> col (sorts' ! i)) \<and>
       applyDefaultDirection (dir (sorts ! i)) = applyDefaultDirection (dir (sorts' ! i))) \<longrightarrow>
    sortSignature sorts = sortSignature sorts')"
proof -
  have "length sorts = length sorts' \<and>
    (\<forall>i < length sorts.
       (case outputKey (sorts ! i) of Some out \<Rightarrow> out | None \<Rightarrow> col (sorts ! i)) =
       (case outputKey (sorts' ! i) of Some out \<Rightarrow> out | None \<Rightarrow> col (sorts' ! i)) \<and>
       applyDefaultDirection (dir (sorts ! i)) = applyDefaultDirection (dir (sorts' ! i))) \<longrightarrow>
    sortSignature sorts = sortSignature sorts'"
  proof
    assume h: "length sorts = length sorts' \<and>
      (\<forall>i < length sorts.
       (case outputKey (sorts ! i) of Some out \<Rightarrow> out | None \<Rightarrow> col (sorts ! i)) =
       (case outputKey (sorts' ! i) of Some out \<Rightarrow> out | None \<Rightarrow> col (sorts' ! i)) \<and>
       applyDefaultDirection (dir (sorts ! i)) = applyDefaultDirection (dir (sorts' ! i)))"
    have "map sigPart sorts = map sigPart sorts'"
    proof (rule nth_equalityI)
      show "length (map sigPart sorts) = length (map sigPart sorts')" using h by simp
    next
      fix i assume "i < length (map sigPart sorts)"
      with h show "map sigPart sorts ! i = map sigPart sorts' ! i"
        by (simp add: sigPart_def)
    qed
    then show "sortSignature sorts = sortSignature sorts'"
      by (simp add: sortSignature_def sigText_def)
  qed
  with length_sortSignature set_sortSignature show ?thesis by blast
qed

theorem sortSignature_deterministic_witness:
  "sortSignature [\<lparr>col = ''users.id'', outputKey = Some ''id'', dir = None\<rparr>] =
   sortSignature [\<lparr>col = ''id'', outputKey = None, dir = Some Asc\<rparr>] \<and>
   sortSignature [\<lparr>col = ''id'', outputKey = None, dir = Some Asc\<rparr>] = ''cd2f9088''"
proof -
  have "sortSignature [\<lparr>col = ''users.id'', outputKey = Some ''id'', dir = None\<rparr>] =
      sortSignature [\<lparr>col = ''id'', outputKey = None, dir = Some Asc\<rparr>]"
    using sortSignature_deterministic
      [where sorts = "[\<lparr>col = ''users.id'', outputKey = Some ''id'', dir = None\<rparr>]"
         and sorts' = "[\<lparr>col = ''id'', outputKey = None, dir = Some Asc\<rparr>]"]
    by (simp add: applyDefaultDirection_def)
  moreover have "sortSignature [\<lparr>col = ''id'', outputKey = None, dir = Some Asc\<rparr>] = ''cd2f9088''"
    using sha256_hex_id_asc
    by (simp add: sortSignature_def sigText_def sigPart_def applyDefaultDirection_def
        directionString_def)
  ultimately show ?thesis by simp
qed

text \<open>
  The claim as stated fails twice.  The sort sets \<^verbatim>\<open>[{col: "users.id"}]\<close> and
  \<^verbatim>\<open>[{col: "id"}]\<close> have the same output keys and directions and different signatures
  (the hash is taken over the qualified column).  And two sort sets with different sequences
  of output keys have the same signature, since \<^verbatim>\<open>:\<close> and \<^verbatim>\<open>|\<close> may occur in a key.
\<close>

theorem sortSignature_deterministic_counterexample:
  "map getSortOutput [\<lparr>col = ''users.id'', outputKey = None, dir = None\<rparr>] =
     map getSortOutput [\<lparr>col = ''id'', outputKey = None, dir = None\<rparr>] \<and>
   map (\<lambda>s. applyDefaultDirection (dir s)) [\<lparr>col = ''users.id'', outputKey = None, dir = None\<rparr>] =
     map (\<lambda>s. applyDefaultDirection (dir s)) [\<lparr>col = ''id'', outputKey = None, dir = None\<rparr>] \<and>
   sortSignature [\<lparr>col = ''users.id'', outputKey = None, dir = None\<rparr>] = ''665e4d37'' \<and>
   sortSignature [\<lparr>col = ''id'', outputKey = None, dir = None\<rparr>] = ''cd2f9088'' \<and>
   map getSortOutput [\<lparr>col = ''x'', outputKey = Some ''a:asc|b'', dir = None\<rparr>] \<noteq>
     map getSortOutput [\<lparr>col = ''x'', outputKey = Some ''a'', dir = None\<rparr>,
                        \<lparr>col = ''y'', outputKey = Some ''b'', dir = None\<rparr>] \<and>
   sortSignature [\<lparr>col = ''x'', outputKey = Some ''a:asc|b'', dir = None\<rparr>] =
     sortSignature [\<lparr>col = ''x'', outputKey = Some ''a'', dir = None\<rparr>,
                    \<lparr>col = ''y'', outputKey = Some ''b'', dir = None\<rparr>]"
proof -
  have a: "sortSignature [\<lparr>col = ''users.id'', outputKey = None, dir = None\<rparr>] = ''665e4d37''"
    using sha256_hex_users_id_asc
    by (simp add: sortSignature_def sigText_def sigPart_def applyDefaultDirection_def
        directionString_def)
  have b: "sortSignature [\<lparr>col = ''id'', outputKey = None, dir = None\<rparr>] = ''cd2f9088''"
    using sha256_hex_id_asc
    by (simp add: sortSignature_def sigText_def sigPart_def applyDefaultDirection_def
        directionString_def)
  have c: "sortSignature [\<lparr>col = ''x'', outputKey = Some ''a:asc|b'', dir = None\<rparr>] =
     sortSignature [\<lparr>col = ''x'', outputKey = Some ''a'', dir = None\<rparr>,
                    \<lparr>col = ''y'', outputKey = Some ''b'', dir = None\<rparr>]"
    by (simp add: sortSignature_def sigText_def sigPart_def applyDefaultDirection_def
        directionString_def)
  from a b c show ?thesis by (simp add: getSortOutput_def)
qed

section \<open>Token and offset cursors\<close>

lemma CursorPayloadSchema_parse_Inl:
  "CursorPayloadSchema_parse v = Inl e \<Longrightarrow> e = Thrown ''ZodError''"
  by (auto simp add: CursorPayloadSchema_parse_def
      split: jsvalue.splits option.splits prod.splits)

lemma CursorPayloadSchema_parse_Inr_iff:
  "CursorPayloadSchema_parse v = Inr p \<longleftrightarrow>
   (\<exists>obj s kk. v = JObject obj \<and> map_of obj ''sig'' = Some (JString s) \<and>
      map_of obj ''k'' = Some (JObject kk) \<and> p = \<lparr>sig = s, k = kk\<rparr>)"
  by (auto simp add: CursorPayloadSchema_parse_def
      split: jsvalue.splits option.splits prod.splits)

lemma decodedCursorOf_token:
  "np = Some token \<or> (np = None \<and> pp = Some token) \<Longrightarrow>
   decodedCursorOf (Some (CursorIncoming np pp off)) cursorCodec =
     thenDo (decode cursorCodec token) (\<lambda>v.
     thenDo (CursorPayloadSchema_parse v) (\<lambda>p.
       Inr (Some (if np = None then DecodedPrev p else DecodedNext p))))"
  by (auto simp add: decodedCursorOf_def decodeCursorPayload_def thenDo_def split: sum.splits)

lemma paginateTry_decode_fail:
  "decodedCursorOf incoming cursorCodec = Inl e \<Longrightarrow>
   paginateTry dialect cursorCodec exec query sorts limit incoming = Inl e"
  by (simp add: paginateTry_def thenDo_simps)

lemma paginateTry_sig_mismatch:
  "decodedCursorOf incoming cursorCodec = Inr (Some dc) \<Longrightarrow>
   payloadOf dc = Some p \<Longrightarrow> sig p \<noteq> sortSignature sorts \<Longrightarrow>
   applySort dialect query (sortsApplied sorts (Some dc)) = Inr q1 \<Longrightarrow>
   applyLimit dialect q1 (addOne limit) (Some (typeOf dc)) = Inr q2 \<Longrightarrow>
   paginateTry dialect cursorCodec exec query sorts limit incoming =
     Inl (PaginationError ''Page token does not match sort order'' INVALID_TOKEN None)"
  by (cases dc) (simp_all add: paginateTry_def constrainQuery_def thenDo_simps)

text \<open>
  Claim C5, as amended.  Under a valid limit and sort set, for an incoming \<^verbatim>\<open>nextPage\<close>
  token, or a \<^verbatim>\<open>prevPage\<close> token with no \<^verbatim>\<open>nextPage\<close>, \<^verbatim>\<open>paginate\<close> fails in each
  of these cases: when the codec fails to decode the token, with that failure if it is a
  \<^verbatim>\<open>PaginationError\<close> and otherwise with an \<^verbatim>\<open>UNEXPECTED_ERROR\<close> whose cause it is; when
  the decoded value is not an object with a string \<^verbatim>\<open>sig\<close> and an object \<^verbatim>\<open>k\<close>, with an
  \<^verbatim>\<open>UNEXPECTED_ERROR\<close> whose cause is the schema's error; and when the payload's
  \<^verbatim>\<open>sig\<close> differs from the signature of the request's sort set (the dialect having
  applied the sorts and the limit), with \<^verbatim>\<open>INVALID_TOKEN\<close>, whatever the dialect's
  \<^verbatim>\<open>applyCursor\<close> and the executor are.
\<close>

theorem paginate_token_rejection:
  fixes dialect :: "'q paginationDialect" and cursorCodec :: "(jsvalue, string) codec"
    and exec :: "'q \<Rightarrow> failure + object list" and query :: 'q
    and sorts :: "sortItem list" and limit :: number
    and np pp :: "string option" and off :: "number option" and token :: string
  assumes valid: "(\<exists>q. limit = Num q \<and> 0 < q \<and> q \<in> \<int>) \<and> sorts \<noteq> []"
    and tok: "np = Some token \<or> (np = None \<and> pp = Some token)"
  defines "P \<equiv> paginate dialect cursorCodec exec query sorts limit
                  (Some (CursorIncoming np pp off))"
  shows
    "(\<forall>e. decode cursorCodec token = Inl e \<and> isPaginationError e \<longrightarrow> P = Inl e) \<and>
     (\<forall>e. decode cursorCodec token = Inl e \<and> \<not> isPaginationError e \<longrightarrow>
          P = Inl (PaginationError ''Failed to paginate'' UNEXPECTED_ERROR (Some e))) \<and>
     (\<forall>v. decode cursorCodec token = Inr v \<and>
          \<not> (\<exists>obj s kk. v = JObject obj \<and> map_of obj ''sig'' = Some (JString s) \<and>
                 map_of obj ''k'' = Some (JObject kk)) \<longrightarrow>
          P = Inl (PaginationError ''Failed to paginate'' UNEXPECTED_ERROR
                    (Some (Thrown ''ZodError'')))) \<and>
     (\<forall>obj s kk q1 q2.
          decode cursorCodec token = Inr (JObject obj) \<and>
          map_of obj ''sig'' = Some (JString s) \<and> map_of obj ''k'' = Some (JObject kk) \<and>
          s \<noteq> sortSignature sorts \<and>
          applySort dialect query (if np = None then invertSorts sorts else sorts) = Inr q1 \<and>
          applyLimit dialect q1 (addOne limit) (Some (if np = None then TPrev else TNext)) = Inr q2 \<longrightarrow>
          P = Inl (PaginationError ''Page token does not match sort order'' INVALID_TOKEN None))"
proof -
  from valid have "\<exists>n. 0 < n \<and> limit = Num (of_nat n)" by (simp only: positive_integer_rat)
  with valid have a: "assertLimitSorts limit sorts = Inr ()"
    by (simp add: assertLimitSorts_ok)
  have p: "P = catchWrap ''Failed to paginate''
      (paginateTry dialect cursorCodec exec query sorts limit (Some (CursorIncoming np pp off)))"
    unfolding P_def by (rule paginate_valid [OF a])
  note d = decodedCursorOf_token [OF tok, of off cursorCodec]
  have c1: "\<forall>e. decode cursorCodec token = Inl e \<and> isPaginationError e \<longrightarrow> P = Inl e"
  proof (intro allI impI)
    fix e assume h: "decode cursorCodec token = Inl e \<and> isPaginationError e"
    then have "decodedCursorOf (Some (CursorIncoming np pp off)) cursorCodec = Inl e"
      by (simp add: d thenDo_simps)
    then have "paginateTry dialect cursorCodec exec query sorts limit (Some (CursorIncoming np pp off)) = Inl e"
      by (rule paginateTry_decode_fail)
    with h show "P = Inl e" by (simp add: p catchWrap_def)
  qed
  have c2: "\<forall>e. decode cursorCodec token = Inl e \<and> \<not> isPaginationError e \<longrightarrow>
          P = Inl (PaginationError ''Failed to paginate'' UNEXPECTED_ERROR (Some e))"
  proof (intro allI impI)
    fix e assume h: "decode cursorCodec token = Inl e \<and> \<not> isPaginationError e"
    then have "decodedCursorOf (Some (CursorIncoming np pp off)) cursorCodec = Inl e"
      by (simp add: d thenDo_simps)
    then have "paginateTry dialect cursorCodec exec query sorts limit (Some (CursorIncoming np pp off)) = Inl e"
      by (rule paginateTry_decode_fail)
    with h show "P = Inl (PaginationError ''Failed to paginate'' UNEXPECTED_ERROR (Some e))"
      by (simp add: p catchWrap_def)
  qed
  have c3: "\<forall>v. decode cursorCodec token = Inr v \<and>
          \<not> (\<exists>obj s kk. v = JObject obj \<and> map_of obj ''sig'' = Some (JString s) \<and>
                 map_of obj ''k'' = Some (JObject kk)) \<longrightarrow>
          P = Inl (PaginationError ''Failed to paginate'' UNEXPECTED_ERROR
                    (Some (Thrown ''ZodError'')))"
  proof (intro allI impI)
    fix v assume h: "decode cursorCodec token = Inr v \<and>
          \<not> (\<exists>obj s kk. v = JObject obj \<and> map_of obj ''sig'' = Some (JString s) \<and>
                 map_of obj ''k'' = Some (JObject kk))"
    then have "\<And>p. CursorPayloadSchema_parse v \<noteq> Inr p"
      unfolding CursorPayloadSchema_parse_Inr_iff by blast
    then obtain e where e: "CursorPayloadSchema_parse v = Inl e"
      by (cases "CursorPayloadSchema_parse v") auto
    then have "e = Thrown ''ZodError''" by (rule CursorPayloadSchema_parse_Inl)
    with e h have "decodedCursorOf (Some (CursorIncoming np pp off)) cursorCodec = Inl (Thrown ''ZodError'')"
      by (simp add: d thenDo_simps)
    then have "paginateTry dialect cursorCodec exec query sorts limit (Some (CursorIncoming np pp off))
        = Inl (Thrown ''ZodError'')"
      by (rule paginateTry_decode_fail)
    then show "P = Inl (PaginationError ''Failed to paginate'' UNEXPECTED_ERROR
                    (Some (Thrown ''ZodError'')))"
      by (simp add: p catchWrap_def)
  qed
  have c4: "\<forall>obj s kk q1 q2.
          decode cursorCodec token = Inr (JObject obj) \<and>
          map_of obj ''sig'' = Some (JString s) \<and> map_of obj ''k'' = Some (JObject kk) \<and>
          s \<noteq> sortSignature sorts \<and>
          applySort dialect query (if np = None then invertSorts sorts else sorts) = Inr q1 \<and>
          applyLimit dialect q1 (addOne limit) (Some (if np = None then TPrev else TNext)) = Inr q2 \<longrightarrow>
          P = Inl (PaginationError ''Page token does not match sort order'' INVALID_TOKEN None)"
  proof (intro allI impI, elim conjE)
    fix obj s kk q1 q2
    assume h: "decode cursorCodec token = Inr (JObject obj)"
      "map_of obj ''sig'' = Some (JString s)" "map_of obj ''k'' = Some (JObject kk)"
      and ne: "s \<noteq> sortSignature sorts"
      and q1: "applySort dialect query (if np = None then invertSorts sorts else sorts) = Inr q1"
      and q2: "applyLimit dialect q1 (addOne limit) (Some (if np = None then TPrev else TNext)) = Inr q2"
    from h have pr: "CursorPayloadSchema_parse (JObject obj) = Inr \<lparr>sig = s, k = kk\<rparr>"
      by (simp add: CursorPayloadSchema_parse_Inr_iff)
    define dc where "dc = (if np = None then DecodedPrev \<lparr>sig = s, k = kk\<rparr>
                           else DecodedNext \<lparr>sig = s, k = kk\<rparr>)"
    from h(1) pr have dd: "decodedCursorOf (Some (CursorIncoming np pp off)) cursorCodec = Inr (Some dc)"
      by (simp add: d thenDo_simps dc_def)
    have po: "payloadOf dc = Some \<lparr>sig = s, k = kk\<rparr>" by (simp add: dc_def)
    have sg: "sig \<lparr>sig = s, k = kk\<rparr> \<noteq> sortSignature sorts" using ne by simp
    have q1': "applySort dialect query (sortsApplied sorts (Some dc)) = Inr q1"
      using q1 by (cases np) (simp_all add: sortsApplied_def dc_def)
    have q2': "applyLimit dialect q1 (addOne limit) (Some (typeOf dc)) = Inr q2"
      using q2 by (cases np) (simp_all add: dc_def)
    from paginateTry_sig_mismatch [OF dd po sg q1' q2']
    show "P = Inl (PaginationError ''Page token does not match sort order'' INVALID_TOKEN None)"
      by (simp add: p catchWrap_def)
  qed
  show ?thesis
    apply (intro conjI)
       apply (rule c1)
      apply (rule c2)
     apply (rule c3)
    apply (rule c4)
    done
qed

theorem paginate_token_rejection_witness:
  "paginate SqlitePaginationDialect idCodec (execOn [] []) [] idSorts (Num 2)
     (Some (CursorIncoming (Some ''stale'') None None)) =
   Inl (PaginationError ''Page token does not match sort order'' INVALID_TOKEN None)"
proof -
  have v: "(\<exists>q. Num 2 = Num q \<and> 0 < q \<and> q \<in> \<int>) \<and> idSorts \<noteq> []"
    by (simp add: idSorts_def)
  have t: "Some ''stale'' = Some ''stale'' \<or> (Some ''stale'' = None \<and> None = Some ''stale'')"
    by simp
  have ne: "''0000000'' \<noteq> sortSignature idSorts"
  proof
    assume "''0000000'' = sortSignature idSorts"
    then have "length ''0000000'' = length (sortSignature idSorts)" by (rule arg_cong)
    with length_sortSignature [of idSorts] show False by simp
  qed
  have h: "decode idCodec ''stale'' =
        Inr (JObject [(''sig'', JString ''0000000''), (''k'', JObject [(''id'', JNumber (Num 2))])]) \<and>
      map_of [(''sig'', JString ''0000000''), (''k'', JObject [(''id'', JNumber (Num 2))])] ''sig''
        = Some (JString ''0000000'') \<and>
      map_of [(''sig'', JString ''0000000''), (''k'', JObject [(''id'', JNumber (Num 2))])] ''k''
        = Some (JObject [(''id'', JNumber (Num 2))]) \<and>
      ''0000000'' \<noteq> sortSignature idSorts \<and>
      applySort SqlitePaginationDialect []
        (if Some ''stale'' = None then invertSorts idSorts else idSorts) =
        Inr [OrderBy ''users.id'' Asc] \<and>
      applyLimit SqlitePaginationDialect [OrderBy ''users.id'' Asc] (addOne (Num 2))
        (Some (if Some ''stale'' = None then TPrev else TNext)) =
        Inr [OrderBy ''users.id'' Asc, Limit (Num 3)]"
    using ne
    by (simp add: idCodec_def tableCodec_def SqlitePaginationDialect_def orderByEach_def
        idSorts_def applyDefaultDirection_def payloadValue_def resolveCursor_def)
  from paginate_token_rejection [where dialect = SqlitePaginationDialect and cursorCodec = idCodec
      and exec = "execOn [] []" and query = "[]" and off = None, OF v t,
      THEN conjunct2, THEN conjunct2, THEN conjunct2, THEN spec, THEN spec, THEN spec,
      THEN spec, THEN spec, THEN mp, OF h]
  show ?thesis .
qed

text \<open>
  The claim as stated (\<^verbatim>\<open>INVALID_TOKEN\<close> in all three cases) fails for a token the codec
  cannot decode and for a token that decodes to another shape: both come out as
  \<^verbatim>\<open>UNEXPECTED_ERROR\<close>.
\<close>

theorem paginate_token_rejection_counterexample:
  "paginate SqlitePaginationDialect idCodec (execOn [] []) [] idSorts (Num 2)
     (Some (CursorIncoming (Some ''garbage'') None None)) =
   Inl (PaginationError ''Failed to paginate'' UNEXPECTED_ERROR (Some (Thrown ''unknown token''))) \<and>
   codeOf (PaginationError ''Failed to paginate'' UNEXPECTED_ERROR (Some (Thrown ''unknown token'')))
     \<noteq> Some INVALID_TOKEN \<and>
   paginate SqlitePaginationDialect idCodec (execOn [] []) [] idSorts (Num 2)
     (Some (CursorIncoming None (Some ''shape'') None)) =
   Inl (PaginationError ''Failed to paginate'' UNEXPECTED_ERROR (Some (Thrown ''ZodError'')))"
  by (simp add: run_defs)

lemma resolvePageTokens_total:
  assumes "\<forall>v. \<exists>t. encode cursorCodec v = Inr t"
  shows "\<exists>t. resolvePageTokens rows sorts cursorCodec dc over = Inr t"
proof (cases "rows = []")
  case True
  then show ?thesis by (simp add: resolvePageTokens_Nil)
next
  case False
  from assms obtain sc where sc: "encode cursorCodec (payloadValue (resolveCursor (hd rows) sorts)) = Inr sc"
    by blast
  from assms obtain ec where ec: "encode cursorCodec (payloadValue (resolveCursor (last rows) sorts)) = Inr ec"
    by blast
  show ?thesis
    by (simp add: resolvePageTokens_nonempty [OF False] sc ec thenDo_simps)
qed

lemma decodedCursorOf_offset:
  "decodedCursorOf (Some (CursorIncoming None None (Some n))) cursorCodec = Inr (Some (DecodedOffset n))"
  by (simp add: decodedCursorOf_def thenDo_simps)

lemma constrainQuery_offset:
  "constrainQuery dialect query sorts limit (Some (DecodedOffset n)) =
     thenDo (applySort dialect query sorts) (\<lambda>q1.
     thenDo (applyLimit dialect q1 (addOne limit) (Some TOffset)) (\<lambda>q2.
       applyOffset dialect q2 n))"
  by (simp add: constrainQuery_def sortsApplied_def)

text \<open>
  Claim C6, as amended.  An offset cursor is taken as it is, with no decoding and no range
  check: for every number \<open>n\<close>, negative and fractional ones included,
  \<^verbatim>\<open>decodeCursor\<close> returns the offset \<open>n\<close>, and the query is the one the dialect builds
  from the sorts, the limit plus one and \<^verbatim>\<open>applyOffset\<close> at \<open>n\<close>; under a valid limit
  and sort set, when that query is built and executed and the codec can encode, \<^verbatim>\<open>paginate\<close>
  returns a page of the executor's rows.
\<close>

theorem paginate_offset_unvalidated:
  fixes dialect :: "'q paginationDialect" and cursorCodec :: "(jsvalue, string) codec"
    and exec :: "'q \<Rightarrow> failure + object list" and query :: 'q
    and sorts :: "sortItem list" and limit :: number and n :: number
  assumes valid: "(\<exists>q. limit = Num q \<and> 0 < q \<and> q \<in> \<int>) \<and> sorts \<noteq> []"
  shows
    "decodeCursor (CursorIncoming None None (Some n)) cursorCodec = Inr (DecodedOffset n) \<and>
     constrainQuery dialect query sorts limit (Some (DecodedOffset n)) =
       thenDo (applySort dialect query sorts) (\<lambda>q1.
       thenDo (applyLimit dialect q1 (addOne limit) (Some TOffset)) (\<lambda>q2.
         applyOffset dialect q2 n)) \<and>
     (\<forall>q rows.
        constrainQuery dialect query sorts limit (Some (DecodedOffset n)) = Inr q \<and>
        exec q = Inr rows \<and> (\<forall>v. \<exists>t. encode cursorCodec v = Inr t) \<longrightarrow>
        (\<exists>res. paginate dialect cursorCodec exec query sorts limit
                  (Some (CursorIncoming None None (Some n))) = Inr res \<and>
               items res = slice0 rows limit))"
proof -
  from valid have "\<exists>m. 0 < m \<and> limit = Num (of_nat m)" by (simp only: positive_integer_rat)
  with valid have a: "assertLimitSorts limit sorts = Inr ()"
    by (simp add: assertLimitSorts_ok)
  have c3: "\<forall>q rows.
        constrainQuery dialect query sorts limit (Some (DecodedOffset n)) = Inr q \<and>
        exec q = Inr rows \<and> (\<forall>v. \<exists>t. encode cursorCodec v = Inr t) \<longrightarrow>
        (\<exists>res. paginate dialect cursorCodec exec query sorts limit
                  (Some (CursorIncoming None None (Some n))) = Inr res \<and>
               items res = slice0 rows limit)"
  proof (intro allI impI, elim conjE)
    fix q rows
    assume c: "constrainQuery dialect query sorts limit (Some (DecodedOffset n)) = Inr q"
      and e: "exec q = Inr rows" and tot: "\<forall>v. \<exists>t. encode cursorCodec v = Inr t"
    have pi: "pageItems (Some (DecodedOffset n)) limit rows = slice0 rows limit"
      by (simp add: pageItems_def)
    from resolvePageTokens_total [OF tot] obtain t where
      t: "resolvePageTokens (slice0 rows limit) sorts cursorCodec (Some (DecodedOffset n))
            (lengthGt (length rows) limit) = Inr t"
      by blast
    show "\<exists>res. paginate dialect cursorCodec exec query sorts limit
                  (Some (CursorIncoming None None (Some n))) = Inr res \<and>
               items res = slice0 rows limit"
      by (simp add: paginate_valid [OF a] paginateTry_def decodedCursorOf_offset c e pi t
          thenDo_simps catchWrap_def)
  qed
  show ?thesis
    apply (intro conjI)
      apply simp
     apply (rule constrainQuery_offset)
    apply (rule c3)
    done
qed

theorem paginate_offset_unvalidated_witness:
  "\<exists>res. paginate SqlitePaginationDialect emptyTokenCodec
       (execOn [OrderBy ''users.id'' Asc, Limit (Num 3), Offset (Num 1)] [idRow 2, idRow 3]) []
       idSorts (Num 2) (Some (CursorIncoming None None (Some (Num 1)))) = Inr res \<and>
     items res = slice0 [idRow 2, idRow 3] (Num 2)"
proof -
  have v: "(\<exists>q. Num 2 = Num q \<and> 0 < q \<and> q \<in> \<int>) \<and> idSorts \<noteq> []"
    by (simp add: idSorts_def)
  have h: "constrainQuery SqlitePaginationDialect [] idSorts (Num 2) (Some (DecodedOffset (Num 1))) =
        Inr [OrderBy ''users.id'' Asc, Limit (Num 3), Offset (Num 1)] \<and>
      execOn [OrderBy ''users.id'' Asc, Limit (Num 3), Offset (Num 1)] [idRow 2, idRow 3]
        [OrderBy ''users.id'' Asc, Limit (Num 3), Offset (Num 1)] = Inr [idRow 2, idRow 3] \<and>
      (\<forall>v. \<exists>t. encode emptyTokenCodec v = Inr t)"
    by (simp add: constrainQuery_def sortsApplied_def thenDo_def SqlitePaginationDialect_def
        orderByEach_def idSorts_def applyDefaultDirection_def execOn_def emptyTokenCodec_def)
  from paginate_offset_unvalidated [where dialect = SqlitePaginationDialect
      and cursorCodec = emptyTokenCodec
      and exec = "execOn [OrderBy ''users.id'' Asc, Limit (Num 3), Offset (Num 1)] [idRow 2, idRow 3]"
      and query = "[]" and n = "Num 1", OF v,
      THEN conjunct2, THEN conjunct2, THEN spec, THEN spec, THEN mp, OF h]
  show ?thesis .
qed

text \<open>
  The claim as stated (a negative or fractional offset makes \<^verbatim>\<open>paginate\<close> fail before
  the executor sees it) fails: the offsets \<open>-1\<close> and \<open>1/2\<close> reach the executor in the
  query and a page is returned.
\<close>

theorem paginate_offset_unvalidated_counterexample:
  "paginate SqlitePaginationDialect idCodec
     (execOn [OrderBy ''users.id'' Asc, Limit (Num 3), Offset (Num (- 1))] [idRow 1, idRow 2]) []
     idSorts (Num 2) (Some (CursorIncoming None None (Some (Num (- 1))))) =
   Inr \<lparr>startCursor = Some ''c1'', endCursor = Some ''c2'', prevPage = Some ''c1'', nextPage = None,
        hasPrevPage = True, hasNextPage = False, items = [idRow 1, idRow 2]\<rparr> \<and>
   paginate SqlitePaginationDialect idCodec
     (execOn [OrderBy ''users.id'' Asc, Limit (Num 3), Offset (Num (1 / 2))] [idRow 1, idRow 2]) []
     idSorts (Num 2) (Some (CursorIncoming None None (Some (Num (1 / 2))))) =
   Inr \<lparr>startCursor = Some ''c1'', endCursor = Some ''c2'', prevPage = Some ''c1'', nextPage = None,
        hasPrevPage = True, hasNextPage = False, items = [idRow 1, idRow 2]\<rparr>"
  by (simp add: run_defs)

section \<open>Properties of the base64url codec\<close>

lemma b64enc_not_single: "b64enc bs \<noteq> [c]"
  by (cases bs rule: b64enc.cases) simp_all

lemma map_filter_defined: "List.map_filter f (filter (\<lambda>x. f x \<noteq> None) xs) = List.map_filter f xs"
  by (simp add: List.map_filter_def)

lemma takeWhile_filter_takeWhile:
  "takeWhile P (filter Q (takeWhile P xs)) = filter Q (takeWhile P xs)"
  unfolding takeWhile_eq_all_conv
  by (auto dest: set_takeWhileD)

lemma bufferFromBase64_alphabet_part:
  "bufferFromBase64 (filter (\<lambda>c. unbase64 c \<noteq> None) (takeWhile (\<lambda>c. c \<noteq> CHR ''='') s)) =
   bufferFromBase64 s"
  by (simp only: bufferFromBase64_def takeWhile_filter_takeWhile map_filter_defined)

lemma decode_base64UrlCodec:
  "decode (base64UrlCodec B) s =
   thenDo (bufferFrom B s Base64url) (\<lambda>buf. bufferToString B buf Utf8)"
  by (simp add: base64UrlCodec_def)

lemma decode_nodeBuffer:
  "decode (base64UrlCodec nodeBuffer) s = Inr (bufferToStringUtf8 (bufferFromBase64 s))"
  by (simp add: base64UrlCodec_def nodeBuffer_def thenDo_def)

text \<open>
  Claim C9, as amended.  \<^verbatim>\<open>base64UrlCodec.decode\<close> does not validate its input.  Over any
  runtime, it fails exactly when one of the two conversions
  \<^verbatim>\<open>Buffer.from(s, "base64url")\<close> and \<^verbatim>\<open>toString("utf8")\<close> fails, with that failure, and
  returns what they give otherwise.  Node's conversions do not fail: \<^verbatim>\<open>decode\<close> returns
  a string for every input, and for an ASCII input, well formed or not, the string it
  returns for the input's characters of the base64 alphabets before the first \<^verbatim>\<open>=\<close>:
  what is malformed is dropped without a trace.  (The reader is modelled on the UTF-8 form
  of a string, which is what it reads when the string is ASCII.)
\<close>

theorem base64UrlCodec_decode_unvalidated:
  fixes B :: bufferApi and s :: string
  shows
    "(\<forall>e. (decode (base64UrlCodec B) s = Inl e) =
          (bufferFrom B s Base64url = Inl e \<or>
           (\<exists>buf. bufferFrom B s Base64url = Inr buf \<and> bufferToString B buf Utf8 = Inl e))) \<and>
     (\<forall>t. (decode (base64UrlCodec B) s = Inr t) =
          (\<exists>buf. bufferFrom B s Base64url = Inr buf \<and> bufferToString B buf Utf8 = Inr t)) \<and>
     (\<exists>t. decode (base64UrlCodec nodeBuffer) s = Inr t) \<and>
     (list_all (\<lambda>c. of_char c < (128 :: nat)) s \<longrightarrow>
        decode (base64UrlCodec nodeBuffer) s =
        decode (base64UrlCodec nodeBuffer)
          (filter (\<lambda>c. unbase64 c \<noteq> None) (takeWhile (\<lambda>c. c \<noteq> CHR ''='') s)))"
proof (intro conjI allI impI)
  fix e
  show "(decode (base64UrlCodec B) s = Inl e) =
        (bufferFrom B s Base64url = Inl e \<or>
         (\<exists>buf. bufferFrom B s Base64url = Inr buf \<and> bufferToString B buf Utf8 = Inl e))"
    unfolding decode_base64UrlCodec
    by (cases "bufferFrom B s Base64url") (simp_all add: thenDo_def)
next
  fix t
  show "(decode (base64UrlCodec B) s = Inr t) =
        (\<exists>buf. bufferFrom B s Base64url = Inr buf \<and> bufferToString B buf Utf8 = Inr t)"
    unfolding decode_base64UrlCodec
    by (cases "bufferFrom B s Base64url") (simp_all add: thenDo_def)
next
  show "\<exists>t. decode (base64UrlCodec nodeBuffer) s = Inr t"
    unfolding decode_nodeBuffer by (rule exI) (rule refl)
next
  show "decode (base64UrlCodec nodeBuffer) s =
        decode (base64UrlCodec nodeBuffer)
          (filter (\<lambda>c. unbase64 c \<noteq> None) (takeWhile (\<lambda>c. c \<noteq> CHR ''='') s))"
    unfolding decode_nodeBuffer bufferFromBase64_alphabet_part by (rule refl)
qed

theorem base64UrlCodec_decode_unvalidated_witness:
  "list_all (\<lambda>c. of_char c < (128 :: nat)) ''a*Gk=x'' \<and>
   filter (\<lambda>c. unbase64 c \<noteq> None) (takeWhile (\<lambda>c. c \<noteq> CHR ''='') ''a*Gk=x'') = ''aGk'' \<and>
   decode (base64UrlCodec nodeBuffer) ''a*Gk=x'' = decode (base64UrlCodec nodeBuffer) ''aGk'' \<and>
   decode (base64UrlCodec nodeBuffer) ''aGk'' = Inr ''hi'' \<and>
   encode (base64UrlCodec nodeBuffer) ''hi'' = Inr ''aGk'' \<and>
   decode (base64UrlCodec
      \<lparr>bufferFrom = (\<lambda>s enc. if enc = Base64url \<and> \<not> list_all (\<lambda>c. unbase64 c \<noteq> None) s
                                then Inl (Thrown ''ERR_INVALID_ARG_VALUE'')
                                else bufferFrom nodeBuffer s enc),
       bufferToString = bufferToString nodeBuffer\<rparr>) ''a*Gk'' =
     Inl (Thrown ''ERR_INVALID_ARG_VALUE'')"
  using base64UrlCodec_decode_unvalidated [of nodeBuffer "''a*Gk=x''"]
    base64UrlCodec_decode_unvalidated
      [of "\<lparr>bufferFrom = (\<lambda>s enc. if enc = Base64url \<and> \<not> list_all (\<lambda>c. unbase64 c \<noteq> None) s
                                then Inl (Thrown ''ERR_INVALID_ARG_VALUE'')
                                else bufferFrom nodeBuffer s enc),
            bufferToString = bufferToString nodeBuffer\<rparr>" "''a*Gk''"]
  by (simp add: base64UrlCodec_def nodeBuffer_def thenDo_def bufferToStringUtf8_def
      bufferFromBase64_def unbase64_def List.map_filter_def utf8Lead_def b64char_def
      char_of_eq_iff)

text \<open>
  The claim as stated (malformed input makes \<^verbatim>\<open>decode\<close> fail) fails under Node:
  \<^verbatim>\<open>"!"\<close> is the encoding of no string and decodes to the empty string, and \<^verbatim>\<open>"a*Gk"\<close>,
  with a character outside the alphabet, decodes to \<^verbatim>\<open>"hi"\<close> like \<^verbatim>\<open>"aGk"\<close>.
\<close>

theorem base64UrlCodec_decode_unvalidated_counterexample:
  "(\<forall>t. encode (base64UrlCodec nodeBuffer) t \<noteq> Inr ''!'') \<and>
   decode (base64UrlCodec nodeBuffer) ''!'' = Inr [] \<and>
   unbase64 CHR ''*'' = None \<and>
   decode (base64UrlCodec nodeBuffer) ''a*Gk'' = Inr ''hi''"
  by (simp add: base64UrlCodec_def nodeBuffer_def thenDo_def bufferToStringUtf8_def
      bufferFromBase64_def unbase64_def List.map_filter_def utf8Lead_def b64enc_not_single
      char_of_eq_iff)

end
